theory Spec2Isabelle
  imports Complex_Main "HOL-Library.Word"
begin

section \<open>Cookie Manager Pro: key manager, envelope cipher, preset store, application protocol\<close>

text \<open>
  A shallow embedding of \<^verbatim>\<open>src/background/service-worker.js\<close> and of the
  crypto utilities it loads (\<^verbatim>\<open>lib/crypto.js\<close>). JavaScript strings are modelled as
  \<^typ>\<open>string\<close>: a list of code units below 256. A \<^verbatim>\<open>Uint8Array\<close> is a list of
  8-bit words. Every \<^verbatim>\<open>throw\<close> of the source is a constructor of the type
  \<open>error\<close>; every function that touches \<^verbatim>\<open>chrome.storage.local\<close> takes the store
  and returns it, also when it fails.
\<close>

subsection \<open>Binary strings and base64 (\<^verbatim>\<open>btoa\<close>, \<^verbatim>\<open>atob\<close>)\<close>

type_synonym byte = "8 word"

text \<open>
  The string that \<^verbatim>\<open>String.fromCharCode.apply(null, bytes)\<close> returns: one code unit
  per byte. The call passes one argument per byte and throws when the engine does not
  accept that many; \<open>fromCharCodeApply\<close> below has that case.
\<close>

definition fromCharCode :: "byte list \<Rightarrow> string" where
  "fromCharCode bs = map (\<lambda>b. char_of (unat b)) bs"

text \<open>\<^verbatim>\<open>new Uint8Array(s.split('').map(char => char.charCodeAt(0)))\<close>.\<close>

definition charCodes :: "string \<Rightarrow> byte list" where
  "charCodes s = map (\<lambda>c. of_nat (of_char c)) s"

definition b64chars :: string where
  "b64chars = ''ABCDEFGHIJKLMNOPQRSTUVWXYZabcdefghijklmnopqrstuvwxyz0123456789+/''"

definition b64char :: "nat \<Rightarrow> char" where
  "b64char n = b64chars ! (n mod 64)"

text \<open>
  \<^verbatim>\<open>btoa\<close> on a binary string: three code units give four characters of the
  alphabet; a rest of two or one is padded with \<^verbatim>\<open>=\<close>. Every \<^typ>\<open>char\<close> is below
  256, so the \<^verbatim>\<open>InvalidCharacterError\<close> of \<^verbatim>\<open>btoa\<close> cannot arise here.
\<close>

fun btoa :: "string \<Rightarrow> string" where
  "btoa (a # b # c # rest) =
     (let n = of_char a * 65536 + of_char b * 256 + of_char c
      in [b64char (n div 262144), b64char (n div 4096), b64char (n div 64), b64char n])
     @ btoa rest"
| "btoa [a, b] =
     (let n = of_char a * 65536 + of_char b * 256
      in [b64char (n div 262144), b64char (n div 4096), b64char (n div 64), CHR ''=''])"
| "btoa [a] =
     (let n = of_char a * 65536
      in [b64char (n div 262144), b64char (n div 4096), CHR ''='', CHR ''=''])"
| "btoa [] = []"

text \<open>The value of a base64 character; \<open>None\<close> for a character outside the alphabet.\<close>

definition b64val :: "char \<Rightarrow> nat option" where
  "b64val ch =
     (let x = (of_char ch :: nat) in
      if 65 \<le> x \<and> x \<le> 90 then Some (x - 65)
      else if 97 \<le> x \<and> x \<le> 122 then Some (x - 71)
      else if 48 \<le> x \<and> x \<le> 57 then Some (x + 4)
      else if x = 43 then Some 62
      else if x = 47 then Some 63
      else None)"

definition ascii_whitespace :: "char \<Rightarrow> bool" where
  "ascii_whitespace ch = ((of_char ch :: nat) \<in> {9, 10, 12, 13, 32})"

text \<open>Removal of one or two trailing \<^verbatim>\<open>=\<close>, done when the length is a multiple of 4.\<close>

definition strip_two_padding :: "string \<Rightarrow> string" where
  "strip_two_padding d =
     (case rev d of
        x # y # r \<Rightarrow>
          if x = CHR ''='' \<and> y = CHR ''='' then rev r
          else if x = CHR ''='' then rev (y # r) else d
      | [x] \<Rightarrow> if x = CHR ''='' then [] else d
      | [] \<Rightarrow> d)"

text \<open>Six bits per character; a rest of 12 or 18 bits drops its last 4 or 2 bits.\<close>

fun b64dec :: "nat list \<Rightarrow> string" where
  "b64dec (a # b # c # d # rest) =
     (let n = a * 262144 + b * 4096 + c * 64 + d
      in [char_of (n div 65536), char_of (n div 256), char_of n]) @ b64dec rest"
| "b64dec [a, b, c] =
     (let n = a * 262144 + b * 4096 + c * 64
      in [char_of (n div 65536), char_of (n div 256)])"
| "b64dec [a, b] = (let n = a * 262144 + b * 4096 in [char_of (n div 65536)])"
| "b64dec _ = []"

text \<open>
  \<^verbatim>\<open>atob\<close> is the forgiving base64 decoding of the HTML standard: ASCII whitespace is
  removed, padding is removed when the length is a multiple of 4, a length that leaves
  remainder 1 and a character outside the alphabet are errors (\<open>None\<close>).
\<close>

definition atob :: "string \<Rightarrow> string option" where
  "atob data =
     (let d1 = filter (\<lambda>ch. \<not> ascii_whitespace ch) data;
          d2 = (if length d1 mod 4 = 0 then strip_two_padding d1 else d1)
      in if length d2 mod 4 = 1 then None
         else map_option b64dec (those (map b64val d2)))"

subsection \<open>Errors and the Blob Store\<close>

text \<open>
  One constructor per \<^verbatim>\<open>throw new Error(...)\<close> of the source, in the order of the
  source, then the rejections of the platform. The wrappers \<open>EncryptionFailed\<close>,
  \<open>DecryptionFailed\<close> carry the error they prefix.
\<close>

datatype error =
    UrlOrDomainRequired
  | PresetNameRequired
  | CookiesMustBeArray
  | PresetNotFound string
  | BothNamesRequired
  | NewNameMustDiffer
  | PresetAlreadyExists string
  | DomainRequired
  | JsonDataRequired
  | ExpectedArray
  | KeyRetrieveFailed string
  | GeneratedKeyInvalidLength nat
  | KeyStoreFailed string
  | EncryptionFailed error
  | DecryptionFailed error
  | EncryptJSONRequiresObject
  | DecryptJSONRequiresString
  | DecryptedNotObject
  | StorageError string
  | CookieStoreError string
  | TypeError
  | SyntaxError
  | InvalidCharacterError
  | OperationError
  | RangeError

text \<open>
  A value stored under a preset name: a string (the envelope), or a value that is neither
  a string nor falsy (an object or a function; once written to the store it is read back
  as an object).
\<close>

datatype pval = PStr string | POther

text \<open>
  \<^verbatim>\<open>chrome.storage.local\<close>: the entry \<^verbatim>\<open>masterEncryptionKey\<close>, the entry
  \<^verbatim>\<open>presets\<close> (an absent entry reads as the empty object, as
  \<^verbatim>\<open>result.presets || {}\<close> does), and what
  \<^verbatim>\<open>chrome.runtime.lastError\<close> holds after a read and after a write.
\<close>

record blob_store =
  masterEncryptionKey :: "string option"
  presets :: "string \<rightharpoonup> pval"
  get_fails :: "string option"
  set_fails :: "string option"

type_synonym 'a result = "(error + 'a) \<times> blob_store"

subsection \<open>Key Manager\<close>

text \<open>\<^verbatim>\<open>base64.replace(/=+$/, '')\<close>.\<close>

definition strip_padding :: "string \<Rightarrow> string" where
  "strip_padding s = rev (dropWhile (\<lambda>ch. ch = CHR ''='') (rev s))"

text \<open>
  The argument is what \<^verbatim>\<open>crypto.getRandomValues\<close> wrote into the 24-byte array; 24
  arguments are within the limit of every engine.
\<close>

definition generateEncryptionKey :: "byte list \<Rightarrow> string" where
  "generateEncryptionKey array = strip_padding (btoa (fromCharCode array))"

text \<open>
  The \<^verbatim>\<open>else\<close> branch of \<^verbatim>\<open>getOrCreateKey\<close>: generate, verify the length,
  persist, resolve.
\<close>

definition create_key :: "blob_store \<Rightarrow> byte list \<Rightarrow> string result" where
  "create_key s array =
     (let newKey = generateEncryptionKey array in
      if length newKey \<noteq> 32 then (Inl (GeneratedKeyInvalidLength (length newKey)), s)
      else (case set_fails s of
              Some msg \<Rightarrow> (Inl (KeyStoreFailed msg), s)
            | None \<Rightarrow> (Inr newKey, s\<lparr>masterEncryptionKey := Some newKey\<rparr>)))"

definition getOrCreateKey :: "blob_store \<Rightarrow> byte list \<Rightarrow> string result" where
  "getOrCreateKey s array =
     (case get_fails s of
        Some msg \<Rightarrow> (Inl (KeyRetrieveFailed msg), s)
      | None \<Rightarrow>
          (case masterEncryptionKey s of
             Some k \<Rightarrow>
               if k \<noteq> [] \<and> length k = 32 then (Inr k, s)
               else create_key s array
           | None \<Rightarrow> create_key s array))"

subsection \<open>JSON values\<close>

text \<open>
  What \<^verbatim>\<open>JSON.parse\<close> returns and what the message channel delivers. A number is a
  rational: every finite double is one. An object is the list of its own properties in
  insertion order. A JavaScript value that may be \<^verbatim>\<open>undefined\<close> is a
  \<open>json option\<close>, with \<open>None\<close> for \<^verbatim>\<open>undefined\<close>.
\<close>

datatype json =
    JNull
  | JBool bool
  | JNum rat
  | JStr string
  | JArr "json list"
  | JObj "(string \<times> json) list"

fun truthy :: "json option \<Rightarrow> bool" where
  "truthy None = False"
| "truthy (Some JNull) = False"
| "truthy (Some (JBool b)) = b"
| "truthy (Some (JNum n)) = (n \<noteq> 0)"
| "truthy (Some (JStr s)) = (s \<noteq> [])"
| "truthy (Some (JArr xs)) = True"
| "truthy (Some (JObj kvs)) = True"

text \<open>\<^verbatim>\<open>Array.isArray(v)\<close> and \<^verbatim>\<open>typeof v === 'object' && v !== null\<close>.\<close>

fun isArray :: "json \<Rightarrow> bool" where
  "isArray (JArr xs) = True"
| "isArray _ = False"

fun isObject :: "json \<Rightarrow> bool" where
  "isObject (JArr xs) = True"
| "isObject (JObj kvs) = True"
| "isObject _ = False"

text \<open>
  \<^verbatim>\<open>cookie.f\<close> for a cookie that is not \<^verbatim>\<open>null\<close> and one of the property names
  the source reads (\<^verbatim>\<open>name\<close>, \<^verbatim>\<open>value\<close>, \<^verbatim>\<open>domain\<close>, \<^verbatim>\<open>path\<close>,
  \<^verbatim>\<open>secure\<close>, \<^verbatim>\<open>httpOnly\<close>, \<^verbatim>\<open>sameSite\<close>, \<^verbatim>\<open>expirationDate\<close>,
  \<^verbatim>\<open>session\<close>): an own property of an object, \<^verbatim>\<open>undefined\<close> on anything else.
  On \<^verbatim>\<open>null\<close> the read throws; the loops handle that case before they call \<open>getProp\<close>.
\<close>

fun getProp :: "json \<Rightarrow> string \<Rightarrow> json option" where
  "getProp (JObj kvs) f = map_of kvs f"
| "getProp _ f = None"

subsection \<open>Platform primitives\<close>

text \<open>
  The built-ins of the browser that the source calls and does not define:
  \<^verbatim>\<open>JSON.stringify\<close>, \<^verbatim>\<open>JSON.parse\<close> (\<open>None\<close> for a \<^verbatim>\<open>SyntaxError\<close>),
  \<^verbatim>\<open>TextEncoder.encode\<close>, \<^verbatim>\<open>TextDecoder.decode\<close>, the PBKDF2 derivation of
  \<^verbatim>\<open>crypto.subtle.deriveKey\<close> (password, salt, iterations; the hash is SHA-256 and the
  key has 256 bits) and AES-GCM of \<^verbatim>\<open>crypto.subtle\<close> (key, nonce, data; decryption is
  \<open>None\<close> when the tag does not verify). \<open>apply_limit\<close> is the largest number of
  arguments that \<^verbatim>\<open>Function.prototype.apply\<close> passes in this engine; beyond it the
  call throws a \<^verbatim>\<open>RangeError\<close>.
\<close>

record platform =
  json_stringify :: "json \<Rightarrow> string"
  json_parse :: "string \<Rightarrow> json option"
  utf8_encode :: "string \<Rightarrow> byte list"
  utf8_decode :: "byte list \<Rightarrow> string"
  pbkdf2_sha256 :: "byte list \<Rightarrow> byte list \<Rightarrow> nat \<Rightarrow> byte list"
  aes_gcm_encrypt :: "byte list \<Rightarrow> byte list \<Rightarrow> byte list \<Rightarrow> byte list"
  aes_gcm_decrypt :: "byte list \<Rightarrow> byte list \<Rightarrow> byte list \<Rightarrow> byte list option"
  apply_limit :: nat

text \<open>
  The contracts of these primitives: decoding inverts encoding, and decryption under the
  same key and nonce inverts encryption.
\<close>

definition platform_ok :: "platform \<Rightarrow> bool" where
  "platform_ok P =
     ((\<forall>t. utf8_decode P (utf8_encode P t) = t) \<and>
      (\<forall>k iv pt. aes_gcm_decrypt P k iv (aes_gcm_encrypt P k iv pt) = Some pt))"

text \<open>
  A value is JSON-serializable when parsing its serialisation gives the value back. On a
  browser this holds for the values \<^verbatim>\<open>JSON.parse\<close> itself produces (objects have
  no duplicate keys and list them in property order); it is stated per value.
\<close>

definition json_serializable :: "platform \<Rightarrow> json \<Rightarrow> bool" where
  "json_serializable P v = (json_parse P (json_stringify P v) = Some v)"

subsection \<open>Envelope Cipher\<close>

definition stringToCryptoKey :: "platform \<Rightarrow> string \<Rightarrow> byte list" where
  "stringToCryptoKey P keyString =
     (let keyMaterial = utf8_encode P keyString;
          salt = utf8_encode P ''CookieManagerPro-AES-Salt''
      in pbkdf2_sha256 P keyMaterial salt 100000)"

text \<open>
  \<^verbatim>\<open>String.fromCharCode.apply(null, combinedBytes)\<close> in \<^verbatim>\<open>encrypt\<close>, where the
  array grows with the data.
\<close>

definition fromCharCodeApply :: "platform \<Rightarrow> byte list \<Rightarrow> error + string" where
  "fromCharCodeApply P bytes =
     (if apply_limit P < length bytes then Inl RangeError else Inr (fromCharCode bytes))"

text \<open>
  \<open>array\<close> is the random 24-byte array a key generation would use, \<open>iv\<close> the random
  12-byte nonce of this call.
\<close>

definition encrypt :: "platform \<Rightarrow> blob_store \<Rightarrow> byte list \<Rightarrow> byte list \<Rightarrow> json \<Rightarrow> string result" where
  "encrypt P s array iv data =
     (case getOrCreateKey s array of
        (Inl e, s1) \<Rightarrow> (Inl (EncryptionFailed e), s1)
      | (Inr key, s1) \<Rightarrow>
          (let cryptoKey = stringToCryptoKey P key;
               dataString = json_stringify P data;
               dataBytes = utf8_encode P dataString;
               encryptedBytes = aes_gcm_encrypt P cryptoKey iv dataBytes;
               combinedBytes = iv @ encryptedBytes
           in case fromCharCodeApply P combinedBytes of
                Inl e \<Rightarrow> (Inl (EncryptionFailed e), s1)
              | Inr binary \<Rightarrow> (Inr (btoa binary), s1)))"

text \<open>
  The data is within the limit under a key when nonce, ciphertext and tag together have no
  more bytes than \<^verbatim>\<open>apply\<close> passes as arguments.
\<close>

definition within_apply_limit :: "platform \<Rightarrow> string \<Rightarrow> byte list \<Rightarrow> json \<Rightarrow> bool" where
  "within_apply_limit P key iv data =
     (length (iv @ aes_gcm_encrypt P (stringToCryptoKey P key) iv
                     (utf8_encode P (json_stringify P data))) \<le> apply_limit P)"

definition decrypt :: "platform \<Rightarrow> blob_store \<Rightarrow> byte list \<Rightarrow> string \<Rightarrow> json result" where
  "decrypt P s array encryptedData =
     (case getOrCreateKey s array of
        (Inl e, s1) \<Rightarrow> (Inl (DecryptionFailed e), s1)
      | (Inr key, s1) \<Rightarrow>
          (let cryptoKey = stringToCryptoKey P key in
           case atob encryptedData of
             None \<Rightarrow> (Inl (DecryptionFailed InvalidCharacterError), s1)
           | Some bin \<Rightarrow>
               (let combinedBytes = charCodes bin;
                    iv = take 12 combinedBytes;
                    encryptedBytes = drop 12 combinedBytes
                in case aes_gcm_decrypt P cryptoKey iv encryptedBytes of
                     None \<Rightarrow> (Inl (DecryptionFailed OperationError), s1)
                   | Some decryptedBytes \<Rightarrow>
                       (case json_parse P (utf8_decode P decryptedBytes) of
                          None \<Rightarrow> (Inl (DecryptionFailed SyntaxError), s1)
                        | Some v \<Rightarrow> (Inr v, s1)))))"

definition encryptJSON :: "platform \<Rightarrow> blob_store \<Rightarrow> byte list \<Rightarrow> byte list \<Rightarrow> json \<Rightarrow> string result" where
  "encryptJSON P s array iv jsonData =
     (if \<not> isObject jsonData then (Inl EncryptJSONRequiresObject, s)
      else encrypt P s array iv jsonData)"

definition decryptJSON :: "platform \<Rightarrow> blob_store \<Rightarrow> byte list \<Rightarrow> pval \<Rightarrow> json result" where
  "decryptJSON P s array encryptedString =
     (case encryptedString of
        POther \<Rightarrow> (Inl DecryptJSONRequiresString, s)
      | PStr e \<Rightarrow>
          (case decrypt P s array e of
             (Inl err, s1) \<Rightarrow> (Inl err, s1)
           | (Inr decryptedData, s1) \<Rightarrow>
               if \<not> isObject decryptedData then (Inl DecryptedNotObject, s1)
               else (Inr decryptedData, s1)))"

subsection \<open>Preset Store\<close>

text \<open>
  \<^verbatim>\<open>presets\<close> is a plain object, so \<^verbatim>\<open>presets[name]\<close> also finds what
  \<^verbatim>\<open>Object.prototype\<close> defines: a function under each of these names, the prototype
  itself under \<^verbatim>\<open>__proto__\<close>.
\<close>

definition object_prototype_keys :: "string list" where
  "object_prototype_keys =
     [''constructor'', ''__defineGetter__'', ''__defineSetter__'', ''hasOwnProperty'',
      ''__lookupGetter__'', ''__lookupSetter__'', ''isPrototypeOf'', ''propertyIsEnumerable'',
      ''toString'', ''valueOf'', ''__proto__'', ''toLocaleString'']"

text \<open>\<^verbatim>\<open>presets[name]\<close>, read.\<close>

definition js_get :: "(string \<rightharpoonup> pval) \<Rightarrow> string \<Rightarrow> pval option" where
  "js_get m name =
     (case m name of
        Some v \<Rightarrow> Some v
      | None \<Rightarrow> if name \<in> set object_prototype_keys then Some POther else None)"

text \<open>
  \<^verbatim>\<open>presets[name] = v\<close>. Under \<^verbatim>\<open>__proto__\<close> the inherited setter runs unless
  the object has an own property of that name: it ignores a string, and an object becomes
  the prototype; no own property is created.
\<close>

definition js_set :: "(string \<rightharpoonup> pval) \<Rightarrow> string \<Rightarrow> pval \<Rightarrow> (string \<rightharpoonup> pval)" where
  "js_set m name v = (if name = ''__proto__'' \<and> m name = None then m else m(name \<mapsto> v))"

text \<open>\<^verbatim>\<open>delete presets[name]\<close> removes an own property only.\<close>

definition js_delete :: "(string \<rightharpoonup> pval) \<Rightarrow> string \<Rightarrow> (string \<rightharpoonup> pval)" where
  "js_delete m name = m(name := None)"

fun truthy_pval :: "pval option \<Rightarrow> bool" where
  "truthy_pval None = False"
| "truthy_pval (Some (PStr e)) = (e \<noteq> [])"
| "truthy_pval (Some POther) = True"

text \<open>\<^verbatim>\<open>String.prototype.trim\<close> on code units below 256.\<close>

definition js_whitespace :: "char \<Rightarrow> bool" where
  "js_whitespace ch = ((of_char ch :: nat) \<in> {9, 10, 11, 12, 13, 32, 160})"

definition trim :: "string \<Rightarrow> string" where
  "trim t = rev (dropWhile js_whitespace (rev (dropWhile js_whitespace t)))"

definition savePreset :: "platform \<Rightarrow> blob_store \<Rightarrow> byte list \<Rightarrow> byte list \<Rightarrow> string \<Rightarrow> json \<Rightarrow> string result" where
  "savePreset P s array iv presetName cookies =
     (if presetName = [] \<or> trim presetName = [] then (Inl PresetNameRequired, s)
      else if \<not> isArray cookies then (Inl CookiesMustBeArray, s)
      else
        (case encryptJSON P s array iv cookies of
           (Inl e, s1) \<Rightarrow> (Inl e, s1)
         | (Inr encryptedData, s1) \<Rightarrow>
             (case get_fails s1 of
                Some msg \<Rightarrow> (Inl (StorageError msg), s1)
              | None \<Rightarrow>
                  (let presets1 = js_set (presets s1) presetName (PStr encryptedData) in
                   case set_fails s1 of
                     Some msg \<Rightarrow> (Inl (StorageError msg), s1)
                   | None \<Rightarrow> (Inr presetName, s1\<lparr>presets := presets1\<rparr>)))))"

definition loadPreset :: "platform \<Rightarrow> blob_store \<Rightarrow> byte list \<Rightarrow> string \<Rightarrow> json result" where
  "loadPreset P s array presetName =
     (if presetName = [] then (Inl PresetNameRequired, s)
      else
        (case get_fails s of
           Some msg \<Rightarrow> (Inl (StorageError msg), s)
         | None \<Rightarrow>
             (case js_get (presets s) presetName of
                None \<Rightarrow> (Inl (PresetNotFound presetName), s)
              | Some v \<Rightarrow>
                  if \<not> truthy_pval (Some v) then (Inl (PresetNotFound presetName), s)
                  else decryptJSON P s array v)))"

definition deletePreset :: "blob_store \<Rightarrow> string \<Rightarrow> string result" where
  "deletePreset s presetName =
     (if presetName = [] then (Inl PresetNameRequired, s)
      else
        (case get_fails s of
           Some msg \<Rightarrow> (Inl (StorageError msg), s)
         | None \<Rightarrow>
             if \<not> truthy_pval (js_get (presets s) presetName)
             then (Inl (PresetNotFound presetName), s)
             else
               (let presets1 = js_delete (presets s) presetName in
                case set_fails s of
                  Some msg \<Rightarrow> (Inl (StorageError msg), s)
                | None \<Rightarrow> (Inr presetName, s\<lparr>presets := presets1\<rparr>))))"

definition renamePreset :: "blob_store \<Rightarrow> string \<Rightarrow> string \<Rightarrow> (string \<times> string) result" where
  "renamePreset s oldName newName =
     (if oldName = [] \<or> newName = [] then (Inl BothNamesRequired, s)
      else if oldName = newName then (Inl NewNameMustDiffer, s)
      else
        (case get_fails s of
           Some msg \<Rightarrow> (Inl (StorageError msg), s)
         | None \<Rightarrow>
             (case js_get (presets s) oldName of
                None \<Rightarrow> (Inl (PresetNotFound oldName), s)
              | Some v \<Rightarrow>
                  if \<not> truthy_pval (Some v) then (Inl (PresetNotFound oldName), s)
                  else if truthy_pval (js_get (presets s) newName)
                  then (Inl (PresetAlreadyExists newName), s)
                  else
                    (let presets1 = js_set (presets s) newName v;
                         presets2 = js_delete presets1 oldName
                     in case set_fails s of
                          Some msg \<Rightarrow> (Inl (StorageError msg), s)
                        | None \<Rightarrow> (Inr (oldName, newName), s\<lparr>presets := presets2\<rparr>)))))"

subsection \<open>Cookie Store and \<^verbatim>\<open>setCookie\<close>\<close>

definition startsWithDot :: "string \<Rightarrow> bool" where
  "startsWithDot d = (case d of [] \<Rightarrow> False | ch # _ \<Rightarrow> ch = CHR ''.'')"

text \<open>
  \<^verbatim>\<open>constructUrl(domain, secure)\<close>. On a \<^verbatim>\<open>domain\<close> that is not a string,
  \<^verbatim>\<open>domain.startsWith\<close> throws a \<^verbatim>\<open>TypeError\<close>.
\<close>

definition constructUrl :: "json option \<Rightarrow> json option \<Rightarrow> error + string" where
  "constructUrl domain secure =
     (let protocol = (if truthy secure then ''https://'' else ''http://'') in
      case domain of
        Some (JStr d) \<Rightarrow>
          (let cleanDomain = (if startsWithDot d then drop 1 d else d)
           in Inr (protocol @ cleanDomain))
      | _ \<Rightarrow> Inl TypeError)"

text \<open>
  The properties \<^verbatim>\<open>setCookie\<close> reads from \<^verbatim>\<open>cookieDetails\<close> and writes to
  \<^verbatim>\<open>cookieConfig\<close>; \<open>None\<close> is a property that is absent or \<^verbatim>\<open>undefined\<close>.
\<close>

record cookie_obj =
  c_url :: "json option"
  c_name :: "json option"
  c_value :: "json option"
  c_domain :: "json option"
  c_path :: "json option"
  c_secure :: "json option"
  c_httpOnly :: "json option"
  c_expirationDate :: "json option"
  c_sameSite :: "json option"

text \<open>The \<^verbatim>\<open>cookieConfig\<close> that \<^verbatim>\<open>setCookie\<close> builds, or what it throws before.\<close>

definition cookieConfig :: "cookie_obj \<Rightarrow> error + cookie_obj" where
  "cookieConfig cookieDetails =
     (if \<not> truthy (c_url cookieDetails) \<and> \<not> truthy (c_domain cookieDetails)
      then Inl UrlOrDomainRequired
      else
        (case (if truthy (c_url cookieDetails) then Inr (c_url cookieDetails)
               else (case constructUrl (c_domain cookieDetails) (c_secure cookieDetails) of
                       Inl e \<Rightarrow> Inl e
                     | Inr u \<Rightarrow> Inr (Some (JStr u)))) of
           Inl e \<Rightarrow> Inl e
         | Inr url \<Rightarrow>
             Inr \<lparr>c_url = url,
                  c_name = c_name cookieDetails,
                  c_value = c_value cookieDetails,
                  c_domain = (if truthy (c_domain cookieDetails) then c_domain cookieDetails else None),
                  c_path = (if truthy (c_path cookieDetails) then c_path cookieDetails else None),
                  c_secure = c_secure cookieDetails,
                  c_httpOnly = c_httpOnly cookieDetails,
                  c_expirationDate =
                    (if truthy (c_expirationDate cookieDetails)
                     then c_expirationDate cookieDetails else None),
                  c_sameSite =
                    (if truthy (c_sameSite cookieDetails) then c_sameSite cookieDetails else None)\<rparr>))"

text \<open>
  The Cookie Store is a parameter: \<open>cookies_set jar config\<close> is the outcome of
  \<^verbatim>\<open>chrome.cookies.set(config)\<close> on the cookie jar \<open>jar\<close> (\<open>Some msg\<close> when the
  call is rejected with that message) and the jar afterwards. \<^verbatim>\<open>setCookie\<close> returns
  \<open>None\<close> for \<^verbatim>\<open>success: true\<close> and the error otherwise.
\<close>

definition setCookie ::
  "('j \<Rightarrow> cookie_obj \<Rightarrow> string option \<times> 'j) \<Rightarrow> 'j \<Rightarrow> cookie_obj \<Rightarrow> error option \<times> 'j" where
  "setCookie cookies_set jar cookieDetails =
     (case cookieConfig cookieDetails of
        Inl e \<Rightarrow> (Some e, jar)
      | Inr config \<Rightarrow>
          (case cookies_set jar config of
             (Some msg, jar1) \<Rightarrow> (Some (CookieStoreError msg), jar1)
           | (None, jar1) \<Rightarrow> (None, jar1)))"

subsection \<open>Application Protocol\<close>

text \<open>
  \<^verbatim>\<open>{ ...cookie, domain, url: constructUrl(domain, cookie.secure) }\<close> for a target
  domain that is a string.
\<close>

definition applyDetails :: "string \<Rightarrow> json \<Rightarrow> error + cookie_obj" where
  "applyDetails domain cookie =
     (case constructUrl (Some (JStr domain)) (getProp cookie ''secure'') of
        Inl e \<Rightarrow> Inl e
      | Inr u \<Rightarrow>
          Inr \<lparr>c_url = Some (JStr u),
               c_name = getProp cookie ''name'',
               c_value = getProp cookie ''value'',
               c_domain = Some (JStr domain),
               c_path = getProp cookie ''path'',
               c_secure = getProp cookie ''secure'',
               c_httpOnly = getProp cookie ''httpOnly'',
               c_expirationDate = getProp cookie ''expirationDate'',
               c_sameSite = getProp cookie ''sameSite''\<rparr>)"

record bulk_result =
  successCount :: nat
  failCount :: nat
  errors :: "(json option \<times> error) list"

text \<open>
  The loop of \<^verbatim>\<open>applyPreset\<close>, with its three local variables as the accumulator.
  Reading \<^verbatim>\<open>cookie.secure\<close> on \<^verbatim>\<open>null\<close> throws, which leaves the loop.
\<close>

fun applyLoop ::
  "('j \<Rightarrow> cookie_obj \<Rightarrow> string option \<times> 'j) \<Rightarrow> string \<Rightarrow> json list \<Rightarrow> bulk_result \<Rightarrow> 'j
   \<Rightarrow> (error + bulk_result) \<times> 'j" where
  "applyLoop cookies_set domain [] acc jar = (Inr acc, jar)"
| "applyLoop cookies_set domain (cookie # rest) acc jar =
     (if cookie = JNull then (Inl TypeError, jar)
      else
        (case applyDetails domain cookie of
           Inl e \<Rightarrow> (Inl e, jar)
         | Inr cookieDetails \<Rightarrow>
             (case setCookie cookies_set jar cookieDetails of
                (None, jar1) \<Rightarrow>
                  applyLoop cookies_set domain rest
                    (acc\<lparr>successCount := successCount acc + 1\<rparr>) jar1
              | (Some e, jar1) \<Rightarrow>
                  applyLoop cookies_set domain rest
                    (acc\<lparr>failCount := failCount acc + 1,
                         errors := errors acc @ [(getProp cookie ''name'', e)]\<rparr>) jar1)))"

text \<open>
  The result of a bulk operation as it is returned: \<^verbatim>\<open>applied\<close> (or
  \<^verbatim>\<open>imported\<close>), \<^verbatim>\<open>failed\<close>, and \<^verbatim>\<open>errors\<close>, which is \<^verbatim>\<open>undefined\<close>
  when no cookie failed.
\<close>

definition bulk_response :: "bulk_result \<Rightarrow> nat \<times> nat \<times> (json option \<times> error) list option" where
  "bulk_response acc =
     (successCount acc, failCount acc, if length (errors acc) > 0 then Some (errors acc) else None)"

definition applyPreset ::
  "platform \<Rightarrow> ('j \<Rightarrow> cookie_obj \<Rightarrow> string option \<times> 'j) \<Rightarrow> blob_store \<Rightarrow> 'j \<Rightarrow> byte list
   \<Rightarrow> string \<Rightarrow> string
   \<Rightarrow> (error + nat \<times> nat \<times> (json option \<times> error) list option) \<times> blob_store \<times> 'j" where
  "applyPreset P cookies_set s jar array presetName domain =
     (if presetName = [] then (Inl PresetNameRequired, s, jar)
      else if domain = [] then (Inl DomainRequired, s, jar)
      else
        (case loadPreset P s array presetName of
           (Inl e, s1) \<Rightarrow> (Inl e, s1, jar)
         | (Inr cookies, s1) \<Rightarrow>
             (case cookies of
                JArr cs \<Rightarrow>
                  (case applyLoop cookies_set domain cs
                          \<lparr>successCount = 0, failCount = 0, errors = []\<rparr> jar of
                     (Inl e, jar1) \<Rightarrow> (Inl e, s1, jar1)
                   | (Inr acc, jar1) \<Rightarrow> (Inr (bulk_response acc), s1, jar1))
              | _ \<Rightarrow> (Inl TypeError, s1, jar))))"

subsection \<open>Import Codec\<close>

text \<open>The \<^verbatim>\<open>cookieDetails\<close> that the loop of \<^verbatim>\<open>importCookies\<close> builds.\<close>

definition importDetails :: "json \<Rightarrow> error + cookie_obj" where
  "importDetails cookie =
     (let sameSite = getProp cookie ''sameSite'';
          cookieDetails =
            \<lparr>c_url = None,
             c_name = getProp cookie ''name'',
             c_value = getProp cookie ''value'',
             c_domain = getProp cookie ''domain'',
             c_path = (if truthy (getProp cookie ''path'') then getProp cookie ''path''
                       else Some (JStr ''/'')),
             c_secure = (if truthy (getProp cookie ''secure'') then getProp cookie ''secure''
                         else Some (JBool False)),
             c_httpOnly = (if truthy (getProp cookie ''httpOnly'') then getProp cookie ''httpOnly''
                           else Some (JBool False)),
             c_expirationDate =
               (if truthy (getProp cookie ''expirationDate'') \<and> \<not> truthy (getProp cookie ''session'')
                then getProp cookie ''expirationDate'' else None),
             c_sameSite =
               (if sameSite = Some (JStr ''no_restriction'') then Some (JStr ''no_restriction'')
                else if sameSite = Some (JStr ''lax'') then Some (JStr ''lax'')
                else if sameSite = Some (JStr ''strict'') then Some (JStr ''strict'')
                else None)\<rparr>
      in case constructUrl (getProp cookie ''domain'') (getProp cookie ''secure'') of
           Inl e \<Rightarrow> Inl e
         | Inr u \<Rightarrow> Inr (cookieDetails\<lparr>c_url := Some (JStr u)\<rparr>))"

fun importLoop ::
  "('j \<Rightarrow> cookie_obj \<Rightarrow> string option \<times> 'j) \<Rightarrow> json list \<Rightarrow> bulk_result \<Rightarrow> 'j
   \<Rightarrow> (error + bulk_result) \<times> 'j" where
  "importLoop cookies_set [] acc jar = (Inr acc, jar)"
| "importLoop cookies_set (cookie # rest) acc jar =
     (if cookie = JNull then (Inl TypeError, jar)
      else
        (case importDetails cookie of
           Inl e \<Rightarrow> (Inl e, jar)
         | Inr cookieDetails \<Rightarrow>
             (case setCookie cookies_set jar cookieDetails of
                (None, jar1) \<Rightarrow>
                  importLoop cookies_set rest (acc\<lparr>successCount := successCount acc + 1\<rparr>) jar1
              | (Some e, jar1) \<Rightarrow>
                  importLoop cookies_set rest
                    (acc\<lparr>failCount := failCount acc + 1,
                         errors := errors acc @ [(getProp cookie ''name'', e)]\<rparr>) jar1)))"

text \<open>
  \<^verbatim>\<open>encrypted ? await decryptJSON(jsonData) : JSON.parse(jsonData)\<close>.
\<close>

definition importParse :: "platform \<Rightarrow> blob_store \<Rightarrow> byte list \<Rightarrow> string \<Rightarrow> bool \<Rightarrow> json result" where
  "importParse P s array jsonData encrypted =
     (if encrypted then decryptJSON P s array (PStr jsonData)
      else (case json_parse P jsonData of
              None \<Rightarrow> (Inl SyntaxError, s)
            | Some v \<Rightarrow> (Inr v, s)))"

definition importCookies ::
  "platform \<Rightarrow> ('j \<Rightarrow> cookie_obj \<Rightarrow> string option \<times> 'j) \<Rightarrow> blob_store \<Rightarrow> 'j \<Rightarrow> byte list
   \<Rightarrow> string \<Rightarrow> bool
   \<Rightarrow> (error + nat \<times> nat \<times> (json option \<times> error) list option) \<times> blob_store \<times> 'j" where
  "importCookies P cookies_set s jar array jsonData encrypted =
     (if jsonData = [] then (Inl JsonDataRequired, s, jar)
      else
        (case importParse P s array jsonData encrypted of
           (Inl e, s1) \<Rightarrow> (Inl e, s1, jar)
         | (Inr cookies, s1) \<Rightarrow>
             (case cookies of
                JArr cs \<Rightarrow>
                  (case importLoop cookies_set cs
                          \<lparr>successCount = 0, failCount = 0, errors = []\<rparr> jar of
                     (Inl e, jar1) \<Rightarrow> (Inl e, s1, jar1)
                   | (Inr acc, jar1) \<Rightarrow> (Inr (bulk_response acc), s1, jar1))
              | _ \<Rightarrow> (Inl ExpectedArray, s1, jar))))"

subsection \<open>Concrete inputs\<close>

definition empty_store :: blob_store where
  "empty_store =
     \<lparr>masterEncryptionKey = None, presets = Map.empty, get_fails = None, set_fails = None\<rparr>"

definition zero24 :: "byte list" where
  "zero24 = [0,0,0,0,0,0,0,0,0,0,0,0,0,0,0,0,0,0,0,0,0,0,0,0]"

definition demo_key :: string where
  "demo_key = ''AAAAAAAAAAAAAAAAAAAAAAAAAAAAAAAA''"

definition keyed_store :: blob_store where
  "keyed_store = empty_store\<lparr>masterEncryptionKey := Some demo_key\<rparr>"

subsection \<open>Describing what the Cookie Store is asked and what it answers\<close>

text \<open>
  The answers of the Cookie Store to a sequence of writes, each on the jar the previous
  one left, and the jar after the last.
\<close>

fun store_run ::
  "('j \<Rightarrow> cookie_obj \<Rightarrow> string option \<times> 'j) \<Rightarrow> 'j \<Rightarrow> cookie_obj list \<Rightarrow> string option list \<times> 'j" where
  "store_run cookies_set jar [] = ([], jar)"
| "store_run cookies_set jar (config # rest) =
     (case cookies_set jar config of
        (r, jar1) \<Rightarrow> (case store_run cookies_set jar1 rest of (rs, jar2) \<Rightarrow> (r # rs, jar2)))"

text \<open>
  A Cookie Store whose jar is the list of the configurations it was asked to write, in
  order; \<open>rejects\<close> tells which of them it refuses.
\<close>

definition recording_store ::
  "(cookie_obj \<Rightarrow> string option) \<Rightarrow> cookie_obj list \<Rightarrow> cookie_obj \<Rightarrow> string option \<times> cookie_obj list" where
  "recording_store rejects trace config = (rejects config, trace @ [config])"

text \<open>The failure details of the cookies whose write was answered with a rejection.\<close>

fun failure_details :: "json list \<Rightarrow> string option list \<Rightarrow> (json option \<times> error) list" where
  "failure_details (cookie # cs) (Some msg # rs) =
     (getProp cookie ''name'', CookieStoreError msg) # failure_details cs rs"
| "failure_details (cookie # cs) (None # rs) = failure_details cs rs"
| "failure_details _ _ = []"

text \<open>
  The configuration that reaches the Cookie Store for a cookie of a preset applied to a
  non-empty target domain (lemma \<open>cookieConfig_applyDetails\<close> derives it from
  \<open>applyDetails\<close> and \<open>cookieConfig\<close>), and the one for an imported cookie whose
  \<^verbatim>\<open>domain\<close> is a string (lemma \<open>cookieConfig_importDetails\<close>).
\<close>

definition appliedConfig :: "string \<Rightarrow> json \<Rightarrow> cookie_obj" where
  "appliedConfig domain cookie =
     \<lparr>c_url = Some (JStr ((if truthy (getProp cookie ''secure'') then ''https://'' else ''http://'')
                          @ (if startsWithDot domain then drop 1 domain else domain))),
      c_name = getProp cookie ''name'',
      c_value = getProp cookie ''value'',
      c_domain = Some (JStr domain),
      c_path = (if truthy (getProp cookie ''path'') then getProp cookie ''path'' else None),
      c_secure = getProp cookie ''secure'',
      c_httpOnly = getProp cookie ''httpOnly'',
      c_expirationDate =
        (if truthy (getProp cookie ''expirationDate'') then getProp cookie ''expirationDate''
         else None),
      c_sameSite =
        (if truthy (getProp cookie ''sameSite'') then getProp cookie ''sameSite'' else None)\<rparr>"

text \<open>The \<^verbatim>\<open>domain\<close> of an imported cookie, when it is a string.\<close>

definition domainString :: "json \<Rightarrow> string option" where
  "domainString cookie =
     (case getProp cookie ''domain'' of Some (JStr d) \<Rightarrow> Some d | _ \<Rightarrow> None)"

definition domainText :: "json \<Rightarrow> string" where
  "domainText cookie = (case domainString cookie of Some d \<Rightarrow> d | None \<Rightarrow> [])"

definition importedConfig :: "json \<Rightarrow> cookie_obj" where
  "importedConfig cookie =
     \<lparr>c_url = Some (JStr ((if truthy (getProp cookie ''secure'') then ''https://'' else ''http://'')
                          @ (if startsWithDot (domainText cookie) then drop 1 (domainText cookie)
                             else domainText cookie))),
      c_name = getProp cookie ''name'',
      c_value = getProp cookie ''value'',
      c_domain = (if domainText cookie = [] then None else Some (JStr (domainText cookie))),
      c_path = (if truthy (getProp cookie ''path'') then getProp cookie ''path''
                else Some (JStr ''/'')),
      c_secure = (if truthy (getProp cookie ''secure'') then getProp cookie ''secure''
                  else Some (JBool False)),
      c_httpOnly = (if truthy (getProp cookie ''httpOnly'') then getProp cookie ''httpOnly''
                    else Some (JBool False)),
      c_expirationDate =
        (if truthy (getProp cookie ''expirationDate'') \<and> \<not> truthy (getProp cookie ''session'')
         then getProp cookie ''expirationDate'' else None),
      c_sameSite =
        (if getProp cookie ''sameSite'' \<in>
              {Some (JStr ''no_restriction''), Some (JStr ''lax''), Some (JStr ''strict'')}
         then getProp cookie ''sameSite'' else None)\<rparr>"


subsection \<open>A small platform for concrete runs\<close>

text \<open>
  Executable stand-ins for the primitives, used to run the operations on concrete inputs:
  a prefix code in place of JSON text, one byte per code unit in place of UTF-8, the
  password itself in place of the derived key, the plaintext followed by a 16-byte tag
  computed from nonce and key in place of AES-GCM, and 130000 arguments as the limit of
  \<^verbatim>\<open>apply\<close>. Lemmas \<open>demo_platform_ok\<close> and
  \<open>demo_json_serializable\<close> show that they satisfy the contracts, for every value.
\<close>

definition ser_nat :: "nat \<Rightarrow> string" where
  "ser_nat n = replicate n CHR ''1'' @ ''0''"

definition ser_int :: "int \<Rightarrow> string" where
  "ser_int i = (if i < 0 then ''-'' else ''+'') @ ser_nat (nat \<bar>i\<bar>)"

definition ser_str :: "string \<Rightarrow> string" where
  "ser_str t = ser_nat (length t) @ t"

fun ser :: "json \<Rightarrow> string"
  and ser_list :: "json list \<Rightarrow> string"
  and ser_fields :: "(string \<times> json) list \<Rightarrow> string" where
  "ser JNull = ''n''"
| "ser (JBool b) = (if b then ''t'' else ''f'')"
| "ser (JNum r) = ''#'' @ ser_int (fst (quotient_of r)) @ ser_int (snd (quotient_of r))"
| "ser (JStr t) = ''s'' @ ser_str t"
| "ser (JArr xs) = ''['' @ ser_list xs"
| "ser (JObj kvs) = ''{'' @ ser_fields kvs"
| "ser_list [] = '']''"
| "ser_list (x # xs) = '','' @ ser x @ ser_list xs"
| "ser_fields [] = ''}''"
| "ser_fields (kv # kvs) = '':'' @ ser_str (fst kv) @ ser (snd kv) @ ser_fields kvs"

definition parse_nat :: "string \<Rightarrow> (nat \<times> string) option" where
  "parse_nat t =
     (case dropWhile (\<lambda>ch. ch = CHR ''1'') t of
        [] \<Rightarrow> None
      | ch # r \<Rightarrow> Some (length (takeWhile (\<lambda>ch. ch = CHR ''1'') t), r))"

definition parse_int :: "string \<Rightarrow> (int \<times> string) option" where
  "parse_int t =
     (case t of
        [] \<Rightarrow> None
      | ch # r \<Rightarrow>
          (case parse_nat r of
             None \<Rightarrow> None
           | Some (n, r1) \<Rightarrow> Some (if ch = CHR ''-'' then - int n else int n, r1)))"

definition parse_str :: "string \<Rightarrow> (string \<times> string) option" where
  "parse_str t =
     (case parse_nat t of
        None \<Rightarrow> None
      | Some (n, r) \<Rightarrow> if n \<le> length r then Some (take n r, drop n r) else None)"

text \<open>The parsers take fuel, one unit per character they may consume.\<close>

fun parse :: "nat \<Rightarrow> string \<Rightarrow> (json \<times> string) option"
  and parse_list :: "nat \<Rightarrow> string \<Rightarrow> (json list \<times> string) option"
  and parse_fields :: "nat \<Rightarrow> string \<Rightarrow> ((string \<times> json) list \<times> string) option" where
  "parse 0 t = None"
| "parse (Suc fuel) [] = None"
| "parse (Suc fuel) (ch # t) =
     (if ch = CHR ''n'' then Some (JNull, t)
      else if ch = CHR ''t'' then Some (JBool True, t)
      else if ch = CHR ''f'' then Some (JBool False, t)
      else if ch = CHR ''#'' then
        (case parse_int t of
           None \<Rightarrow> None
         | Some (a, t1) \<Rightarrow>
             (case parse_int t1 of
                None \<Rightarrow> None
              | Some (b, t2) \<Rightarrow> Some (JNum (Fract a b), t2)))
      else if ch = CHR ''s'' then
        (case parse_str t of None \<Rightarrow> None | Some (x, t1) \<Rightarrow> Some (JStr x, t1))
      else if ch = CHR ''['' then
        (case parse_list fuel t of None \<Rightarrow> None | Some (xs, t1) \<Rightarrow> Some (JArr xs, t1))
      else if ch = CHR ''{'' then
        (case parse_fields fuel t of None \<Rightarrow> None | Some (kvs, t1) \<Rightarrow> Some (JObj kvs, t1))
      else None)"
| "parse_list 0 t = None"
| "parse_list (Suc fuel) [] = None"
| "parse_list (Suc fuel) (ch # t) =
     (if ch = CHR '']'' then Some ([], t)
      else if ch = CHR '','' then
        (case parse fuel t of
           None \<Rightarrow> None
         | Some (x, t1) \<Rightarrow>
             (case parse_list fuel t1 of
                None \<Rightarrow> None
              | Some (xs, t2) \<Rightarrow> Some (x # xs, t2)))
      else None)"
| "parse_fields 0 t = None"
| "parse_fields (Suc fuel) [] = None"
| "parse_fields (Suc fuel) (ch # t) =
     (if ch = CHR ''}'' then Some ([], t)
      else if ch = CHR '':'' then
        (case parse_str t of
           None \<Rightarrow> None
         | Some (k, t1) \<Rightarrow>
             (case parse fuel t1 of
                None \<Rightarrow> None
              | Some (v, t2) \<Rightarrow>
                  (case parse_fields fuel t2 of
                     None \<Rightarrow> None
                   | Some (kvs, t3) \<Rightarrow> Some ((k, v) # kvs, t3))))
      else None)"

definition demo_parse :: "string \<Rightarrow> json option" where
  "demo_parse t =
     (case parse (length t) t of
        Some (v, r) \<Rightarrow> if r = [] then Some v else None
      | None \<Rightarrow> None)"

definition demo_tag :: "byte list \<Rightarrow> byte list \<Rightarrow> byte list" where
  "demo_tag k iv = take 16 (iv @ k @ replicate 16 0)"

definition demo_encrypt :: "byte list \<Rightarrow> byte list \<Rightarrow> byte list \<Rightarrow> byte list" where
  "demo_encrypt k iv pt = pt @ demo_tag k iv"

definition demo_decrypt :: "byte list \<Rightarrow> byte list \<Rightarrow> byte list \<Rightarrow> byte list option" where
  "demo_decrypt k iv ct =
     (if 16 \<le> length ct \<and> drop (length ct - 16) ct = demo_tag k iv
      then Some (take (length ct - 16) ct) else None)"

definition demo_platform :: platform where
  "demo_platform =
     \<lparr>json_stringify = ser,
      json_parse = demo_parse,
      utf8_encode = charCodes,
      utf8_decode = fromCharCode,
      pbkdf2_sha256 = (\<lambda>password salt iterations. password),
      aes_gcm_encrypt = demo_encrypt,
      aes_gcm_decrypt = demo_decrypt,
      apply_limit = 130000\<rparr>"

subsection \<open>The 6-bit groups of a binary string\<close>

text \<open>
  The values of the characters that \<open>btoa\<close> writes before the padding; lemma
  \<open>btoa_sextets\<close> relates the two.
\<close>

fun sextets :: "string \<Rightarrow> nat list" where
  "sextets (a # b # c # rest) =
     (let n = of_char a * 65536 + of_char b * 256 + of_char c
      in [n div 262144 mod 64, n div 4096 mod 64, n div 64 mod 64, n mod 64]) @ sextets rest"
| "sextets [a, b] =
     (let n = of_char a * 65536 + of_char b * 256
      in [n div 262144 mod 64, n div 4096 mod 64, n div 64 mod 64])"
| "sextets [a] =
     (let n = of_char a * 65536 in [n div 262144 mod 64, n div 4096 mod 64])"
| "sextets [] = []"

definition padding :: "string \<Rightarrow> string" where
  "padding t = replicate ((3 - length t mod 3) mod 3) CHR ''=''"

text \<open>
  The accumulator after a run of the loop: the counters advanced by the numbers of accepted
  and rejected writes, the failure details appended.
\<close>

definition tally :: "bulk_result \<Rightarrow> json list \<Rightarrow> string option list \<Rightarrow> bulk_result" where
  "tally acc cookies outs =
     \<lparr>successCount = successCount acc + length (filter (\<lambda>r. r = None) outs),
      failCount = failCount acc + length (filter (\<lambda>r. r \<noteq> None) outs),
      errors = errors acc @ failure_details cookies outs\<rparr>"

definition demo_iv :: "byte list" where
  "demo_iv = [1, 2, 3, 4, 5, 6, 7, 8, 9, 10, 11, 12]"

definition demo_value :: json where
  "demo_value = JArr [JObj [(''name'', JStr ''sid'')]]"

text \<open>A string of 200000 characters.\<close>

definition demo_big_value :: json where
  "demo_big_value = JStr (replicate 200000 CHR ''a'')"

definition demo_envelope :: string where
  "demo_envelope = ''AQIDBAUGBwgJCgsMWyx7OjExMTEwbmFtZXMxMTEwc2lkfV0BAgMEBQYHCAkKCwxBQUFB''"

text \<open>A store that holds one preset under the name \<^verbatim>\<open>constructor\<close>.\<close>

definition constructor_store :: blob_store where
  "constructor_store = keyed_store\<lparr>presets := [''constructor'' \<mapsto> PStr demo_envelope]\<rparr>"

text \<open>A store that holds presets under the names \<^verbatim>\<open>A\<close> and \<^verbatim>\<open>B\<close>.\<close>

definition two_preset_store :: blob_store where
  "two_preset_store =
     keyed_store\<lparr>presets := [''A'' \<mapsto> PStr demo_envelope, ''B'' \<mapsto> PStr demo_envelope]\<rparr>"

text \<open>Three cookies, a store that holds them as the preset \<^verbatim>\<open>work\<close>, and a Cookie
  Store that refuses the cookie named \<^verbatim>\<open>theme\<close>.\<close>

definition demo_cookie1 :: json where
  "demo_cookie1 =
     JObj [(''name'', JStr ''sid''), (''value'', JStr ''1''), (''domain'', JStr ''.old.example''),
           (''secure'', JBool True)]"

definition demo_cookie2 :: json where
  "demo_cookie2 =
     JObj [(''name'', JStr ''theme''), (''value'', JStr ''dark''), (''domain'', JStr ''old.example''),
           (''sameSite'', JStr ''unexpected''), (''session'', JBool True),
           (''expirationDate'', JNum 86400)]"

definition demo_cookie3 :: json where
  "demo_cookie3 =
     JObj [(''name'', JStr ''lang''), (''value'', JStr ''en''), (''domain'', JStr ''old.example''),
           (''secure'', JBool False), (''sameSite'', JStr ''lax'')]"

definition demo_cookies :: "json list" where
  "demo_cookies = [demo_cookie1, demo_cookie2, demo_cookie3]"

definition work_store :: blob_store where
  "work_store = snd (savePreset demo_platform keyed_store [] demo_iv ''work'' (JArr demo_cookies))"

definition refuse_theme :: "cookie_obj \<Rightarrow> string option" where
  "refuse_theme config = (if c_name config = Some (JStr ''theme'') then Some ''refused'' else None)"

subsection \<open>Two mutations in flight\<close>

text \<open>
  \<^verbatim>\<open>savePreset\<close> gives up control at each \<^verbatim>\<open>await\<close>. After the envelope is
  computed it waits for \<^verbatim>\<open>chrome.storage.local.get\<close>; when that resolves it assigns
  to its own copy of the map and calls \<^verbatim>\<open>chrome.storage.local.set\<close> with it, in one
  turn; then it waits for the write. A task is a call between these points. The source
  holds no lock, queue or flag, so nothing orders the turns of two calls: a schedule names,
  turn by turn, the call that advances (\<open>False\<close> the first, \<open>True\<close> the second).
\<close>

datatype save_task =
    AwaitGet string string
  | AwaitSet string "string \<rightharpoonup> pval"
  | Returned

fun save_step :: "blob_store \<Rightarrow> save_task \<Rightarrow> blob_store \<times> save_task" where
  "save_step s (AwaitGet presetName encryptedData) =
     (s, AwaitSet presetName (js_set (presets s) presetName (PStr encryptedData)))"
| "save_step s (AwaitSet presetName presets1) = (s\<lparr>presets := presets1\<rparr>, Returned)"
| "save_step s Returned = (s, Returned)"

fun run_schedule ::
  "bool list \<Rightarrow> blob_store \<times> save_task \<times> save_task \<Rightarrow> blob_store \<times> save_task \<times> save_task" where
  "run_schedule [] st = st"
| "run_schedule (False # sched) (s, a, b) =
     (case save_step s a of (s1, a1) \<Rightarrow> run_schedule sched (s1, a1, b))"
| "run_schedule (True # sched) (s, a, b) =
     (case save_step s b of (s1, b1) \<Rightarrow> run_schedule sched (s1, a, b1))"

section \<open>Properties\<close>

subsection \<open>Base64 length and padding\<close>

lemma b64char_in: "b64char n \<in> set b64chars"
  unfolding b64char_def by (rule nth_mem) (simp add: b64chars_def)

lemma b64char_not_pad: "b64char n \<noteq> CHR ''=''"
  using b64char_in [of n] by (auto simp: b64chars_def)

lemma length_btoa: "length (btoa t) = 4 * ((length t + 2) div 3)"
proof (induction t rule: btoa.induct)
  case (1 a b c rest)
  have "(5 + length rest) div 3 = Suc ((length rest + 2) div 3)" by arith
  with 1 show ?case by (simp add: Let_def)
qed (simp_all add: Let_def)

lemma btoa_no_pad: "length t mod 3 = 0 \<Longrightarrow> CHR ''='' \<notin> set (btoa t)"
proof (induction t rule: btoa.induct)
  case (1 a b c rest)
  then show ?case using b64char_not_pad [symmetric] by (auto simp: Let_def)
qed simp_all

lemma strip_padding_id:
  assumes "CHR ''='' \<notin> set t"
  shows "strip_padding t = t"
proof -
  from assms have "dropWhile (\<lambda>ch. ch = CHR ''='') (rev t) = rev t"
    by (cases "rev t") (auto simp: dropWhile_eq_self_iff)
  then show ?thesis by (simp add: strip_padding_def)
qed

lemma length_generateEncryptionKey:
  "length array = 24 \<Longrightarrow> length (generateEncryptionKey array) = 32"
  by (simp add: generateEncryptionKey_def strip_padding_id btoa_no_pad length_btoa fromCharCode_def)

subsection \<open>Key Manager\<close>

lemma getOrCreateKey_Inr:
  "getOrCreateKey s array = (Inr k, s') \<Longrightarrow> length k = 32 \<and> masterEncryptionKey s' = Some k"
  by (auto simp: getOrCreateKey_def create_key_def Let_def split: option.splits if_splits)

lemma getOrCreateKey_stored:
  "masterEncryptionKey s = Some k \<Longrightarrow> length k = 32 \<Longrightarrow> get_fails s = None \<Longrightarrow>
   getOrCreateKey s array = (Inr k, s)"
  by (auto simp: getOrCreateKey_def)

lemma getOrCreateKey_succeeds:
  "get_fails s = None \<Longrightarrow> set_fails s = None \<Longrightarrow> length array = 24 \<Longrightarrow>
   \<exists>k s'. getOrCreateKey s array = (Inr k, s')"
  by (auto simp: getOrCreateKey_def create_key_def Let_def length_generateEncryptionKey
      split: option.splits)

lemma generateEncryptionKey_zero24: "generateEncryptionKey zero24 = demo_key"
  by (simp add: generateEncryptionKey_def zero24_def fromCharCode_def strip_padding_def
      b64char_def b64chars_def demo_key_def)

lemma getOrCreateKey_empty_store:
  "getOrCreateKey empty_store zero24 = (Inr demo_key, keyed_store)"
  by (simp add: getOrCreateKey_def create_key_def generateEncryptionKey_zero24 Let_def
      empty_store_def keyed_store_def demo_key_def)



subsection \<open>Base64 round trip\<close>



lemma b64char_mod: "b64char (n mod 64) = b64char n"
  by (simp add: b64char_def)

lemma padding_cases:
  "padding (a # b # c # rest) = padding rest" "padding [a, b] = ''=''" "padding [a] = ''==''"
  "padding [] = []"
  by (simp_all add: padding_def numeral_2_eq_2)

lemma btoa_sextets: "btoa t = map b64char (sextets t) @ padding t"
  by (induction t rule: btoa.induct) (simp_all add: Let_def b64char_mod padding_cases)

lemma sextets_bound: "v \<in> set (sextets t) \<Longrightarrow> v < 64"
  by (induction t rule: sextets.induct) (auto simp: Let_def)

lemma b64val_table: "map b64val b64chars = map Some [0..<64]"
  by (simp add: b64chars_def b64val_def upt_rec)

lemma ws_table: "list_all (\<lambda>ch. \<not> ascii_whitespace ch) (CHR ''='' # b64chars)"
  by (simp add: b64chars_def ascii_whitespace_def)

lemma length_b64chars: "length b64chars = 64"
  by (simp add: b64chars_def)

lemma b64val_b64char:
  assumes "v < 64"
  shows "b64val (b64char v) = Some v"
proof -
  have "b64val (b64chars ! v) = map b64val b64chars ! v"
    using assms by (simp add: length_b64chars)
  also have "\<dots> = Some v"
    unfolding b64val_table using assms by simp
  finally show ?thesis using assms by (simp add: b64char_def)
qed

lemma b64char_not_ws: "\<not> ascii_whitespace (b64char v)"
  using ws_table b64char_in [of v] by (simp add: list_all_iff)

lemma btoa_no_ws: "filter (\<lambda>ch. \<not> ascii_whitespace ch) (btoa t) = btoa t"
proof -
  have "\<not> ascii_whitespace CHR ''=''" using ws_table by simp
  then have "\<forall>ch\<in>set (btoa t). \<not> ascii_whitespace ch"
    by (auto simp: btoa_sextets padding_def b64char_not_ws)
  then show ?thesis by simp
qed

lemma those_b64val: "\<forall>v\<in>set vs. v < 64 \<Longrightarrow> those (map b64val (map b64char vs)) = Some vs"
  by (induction vs) (simp_all add: b64val_b64char)

lemma length_sextets_mod: "length (sextets t) mod 4 \<noteq> 1"
  by (induction t rule: sextets.induct) (simp_all add: Let_def)

lemma sextets_Nil: "sextets t = [] \<longleftrightarrow> t = []"
  by (induction t rule: sextets.induct) (simp_all add: Let_def)

lemma strip_two_padding_btoa: "strip_two_padding (btoa t) = map b64char (sextets t)"
proof -
  let ?body = "map b64char (sextets t)"
  have last_body: "?body \<noteq> [] \<Longrightarrow> last ?body \<noteq> CHR ''=''"
    by (simp add: last_map b64char_not_pad)
  consider (p0) "padding t = []" | (p1) "padding t = ''=''" "t \<noteq> []"
    | (p2) "padding t = ''==''" "t \<noteq> []"
    by (induction t rule: btoa.induct) (simp_all add: padding_cases)
  then show ?thesis
  proof cases
    case p0
    show ?thesis
    proof (cases "rev ?body")
      case Nil
      then show ?thesis by (simp add: btoa_sextets p0 strip_two_padding_def)
    next
      case (Cons x r)
      then have "?body = rev r @ [x]" by (metis rev_rev_ident rev.simps(2))
      with last_body have "x \<noteq> CHR ''=''" by (metis last_snoc snoc_eq_iff_butlast)
      with Cons show ?thesis
        by (simp add: btoa_sextets p0 strip_two_padding_def split: list.splits)
    qed
  next
    case p1
    then have ne: "?body \<noteq> []" by (simp add: sextets_Nil)
    then obtain x r where rb: "rev ?body = x # r" by (cases "rev ?body") auto
    then have "?body = rev r @ [x]" by (metis rev_rev_ident rev.simps(2))
    with last_body ne have "x \<noteq> CHR ''=''" by (metis last_snoc)
    with rb show ?thesis
      by (simp add: btoa_sextets p1 strip_two_padding_def)
  next
    case p2
    show ?thesis
      by (simp add: btoa_sextets p2 strip_two_padding_def)
  qed
qed

lemma div4096: "(n::nat) div 4096 = n div 64 div 64"
  using div_mult2_eq [of n 64 64] by simp

lemma div262144: "(n::nat) div 262144 = n div 64 div 64 div 64"
  using div_mult2_eq [of n 4096 64] by (simp add: div4096)

lemma recompose:
  fixes n :: nat
  assumes "n < 16777216"
  shows "(n div 262144 mod 64) * 262144 + (n div 4096 mod 64) * 4096 + (n div 64 mod 64) * 64 + n mod 64 = n"
proof -
  define x1 where "x1 = n div 64"
  define x2 where "x2 = x1 div 64"
  define x3 where "x3 = x2 div 64"
  have e0: "n = x1 * 64 + n mod 64" by (simp add: x1_def)
  have e1: "x1 = x2 * 64 + x1 mod 64" by (simp add: x2_def)
  have e2: "x2 = x3 * 64 + x2 mod 64" by (simp add: x3_def)
  have "x3 < 64" using assms unfolding x3_def x2_def x1_def by simp
  then have e3: "x3 mod 64 = x3" by simp
  have "(x3 mod 64) * 262144 + (x2 mod 64) * 4096 + (x1 mod 64) * 64 + n mod 64 = n"
    using e0 e1 e2 e3 by linarith
  then show ?thesis by (simp add: div4096 div262144 x1_def x2_def x3_def)
qed

lemma split3:
  fixes a b c :: nat
  assumes "b < 256" "c < 256"
  shows "(a * 65536 + b * 256 + c) div 65536 = a"
    and "(a * 65536 + b * 256 + c) div 256 mod 256 = b"
    and "(a * 65536 + b * 256 + c) mod 256 = c"
proof -
  show "(a * 65536 + b * 256 + c) div 65536 = a" using assms by simp
  have "(a * 65536 + b * 256 + c) div 256 = a * 256 + b" using assms by simp
  then show "(a * 65536 + b * 256 + c) div 256 mod 256 = b" using assms by simp
  have "a * 65536 + b * 256 + c = (a * 256 + b) * 256 + c" by simp
  then show "(a * 65536 + b * 256 + c) mod 256 = c" using assms by (metis mod_mult_self3 mod_less)
qed

lemma of_char_less: "(of_char a :: nat) < 256"
proof -
  have "(of_char a :: nat) = of_char (char_of (of_char a :: nat))" by simp
  also have "\<dots> = (of_char a :: nat) mod 256" by (rule of_char_of)
  finally have "(of_char a :: nat) = of_char a mod 256" .
  then show ?thesis by (metis mod_less_divisor zero_less_numeral)
qed

lemma char_of_eq: "(x::nat) mod 256 = of_char ch \<Longrightarrow> char_of x = ch"
  by (metis char_of_char char_of_mod_256)

lemma b64dec_triple:
  fixes a b c :: char
  defines "n \<equiv> (of_char a :: nat) * 65536 + of_char b * 256 + of_char c"
  defines "m \<equiv> (n div 262144 mod 64) * 262144 + (n div 4096 mod 64) * 4096 + (n div 64 mod 64) * 64 + n mod 64"
  shows "char_of (m div 65536) = a" "char_of (m div 256) = b" "char_of m = c"
proof -
  have la: "(of_char a :: nat) < 256" and lb: "(of_char b :: nat) < 256"
    and lc: "(of_char c :: nat) < 256" by (rule of_char_less)+
  have "n < 16777216" unfolding n_def using la lb lc by linarith
  then have mn: "m = n" unfolding m_def by (rule recompose)
  show "char_of (m div 65536) = a"
    unfolding mn n_def using split3(1) [OF lb lc, of "of_char a"] by simp
  show "char_of (m div 256) = b"
    unfolding mn n_def using split3(2) [OF lb lc, of "of_char a"] by (simp add: char_of_eq)
  show "char_of m = c"
    unfolding mn n_def using split3(3) [OF lb lc, of "of_char a"] by (simp add: char_of_eq)
qed

lemma b64dec_pair:
  fixes a b :: char
  defines "n \<equiv> (of_char a :: nat) * 65536 + of_char b * 256"
  defines "m \<equiv> (n div 262144 mod 64) * 262144 + (n div 4096 mod 64) * 4096 + (n div 64 mod 64) * 64"
  shows "char_of (m div 65536) = a" "char_of (m div 256) = b"
proof -
  have la: "(of_char a :: nat) < 256" and lb: "(of_char b :: nat) < 256"
    by (rule of_char_less)+
  have lt: "n < 16777216" unfolding n_def using la lb by linarith
  have "n = (of_char a * 1024 + of_char b * 4) * 64" unfolding n_def by simp
  then have "n mod 64 = 0" by (metis mod_mult_self2_is_0)
  with recompose [OF lt] have mn: "m = n" unfolding m_def by linarith
  have z: "(0::nat) < 256" by simp
  show "char_of (m div 65536) = a"
    unfolding mn n_def using split3(1) [OF lb z, of "of_char a"] by simp
  show "char_of (m div 256) = b"
    unfolding mn n_def using split3(2) [OF lb z, of "of_char a"] by (simp add: char_of_eq)
qed

lemma b64dec_single:
  fixes a :: char
  defines "n \<equiv> (of_char a :: nat) * 65536"
  defines "m \<equiv> (n div 262144 mod 64) * 262144 + (n div 4096 mod 64) * 4096"
  shows "char_of (m div 65536) = a"
proof -
  have la: "(of_char a :: nat) < 256" by (rule of_char_less)
  have lt: "n < 16777216" unfolding n_def using la by linarith
  have "n = (of_char a * 1024) * 64" unfolding n_def by simp
  then have m0: "n mod 64 = 0" by (metis mod_mult_self2_is_0)
  have "n div 64 = (of_char a * 16) * 64" unfolding n_def by simp
  then have m1: "n div 64 mod 64 = 0" by (metis mod_mult_self2_is_0)
  from recompose [OF lt] m0 m1 have mn: "m = n" unfolding m_def by linarith
  show ?thesis unfolding mn n_def by simp
qed

lemma b64dec_sextets: "b64dec (sextets t) = t"
proof (induction t rule: sextets.induct)
  case (1 a b c rest)
  then show ?case by (simp add: Let_def b64dec_triple)
next
  case (2 a b)
  show ?case using b64dec_pair [of a b] by (simp add: Let_def)
next
  case (3 a)
  show ?case using b64dec_single [of a] by (simp add: Let_def)
next
  case 4
  show ?case by simp
qed

lemma atob_btoa: "atob (btoa t) = Some t"
proof -
  have len: "length (btoa t) mod 4 = 0"
    by (induction t rule: btoa.induct) (simp_all add: Let_def)
  have vals: "those (map b64val (map b64char (sextets t))) = Some (sextets t)"
    by (rule those_b64val) (simp add: sextets_bound)
  show ?thesis
    using length_sextets_mod [of t]
    by (simp add: atob_def Let_def btoa_no_ws len strip_two_padding_btoa vals b64dec_sextets
        del: map_map)
qed

subsection \<open>The small platform satisfies the contracts\<close>

lemma parse_nat_ser_nat: "parse_nat (ser_nat n @ r) = Some (n, r)"
  by (simp add: parse_nat_def ser_nat_def dropWhile_append takeWhile_append)

lemma parse_int_ser_int: "parse_int (ser_int i @ r) = Some (i, r)"
  by (simp add: parse_int_def ser_int_def parse_nat_ser_nat)

lemma parse_str_ser_str: "parse_str (ser_str t @ r) = Some (t, r)"
  by (simp add: parse_str_def ser_str_def parse_nat_ser_nat)

lemma Fract_quotient_of: "Fract (fst (quotient_of r)) (snd (quotient_of r)) = r"
  by (cases "quotient_of r") (simp add: quotient_of_div [symmetric] Fract_of_int_quotient)

lemma parse_ser:
  "length (ser v) \<le> fuel \<Longrightarrow> parse fuel (ser v @ r) = Some (v, r)"
  "length (ser_list xs) \<le> fuel \<Longrightarrow> parse_list fuel (ser_list xs @ r) = Some (xs, r)"
  "length (ser_fields kvs) \<le> fuel \<Longrightarrow> parse_fields fuel (ser_fields kvs @ r) = Some (kvs, r)"
proof (induction v and xs and kvs arbitrary: fuel r and fuel r and fuel r rule: ser_ser_list_ser_fields.induct)
  case 1
  then show ?case by (cases fuel) simp_all
next
  case (2 b)
  then show ?case by (cases fuel; cases b) simp_all
next
  case (3 q)
  then show ?case by (cases fuel) (simp_all add: parse_int_ser_int Fract_quotient_of)
next
  case (4 t)
  then show ?case by (cases fuel) (simp_all add: parse_str_ser_str)
next
  case (5 xs)
  then show ?case by (cases fuel) simp_all
next
  case (6 kvs)
  then show ?case by (cases fuel) simp_all
next
  case 7
  then show ?case by (cases fuel) simp_all
next
  case (8 x xs)
  then show ?case by (cases fuel) simp_all
next
  case 9
  then show ?case by (cases fuel) simp_all
next
  case (10 kv kvs)
  then show ?case by (cases fuel) (simp_all add: parse_str_ser_str)
qed

lemma demo_parse_ser: "demo_parse (ser v) = Some v"
  using parse_ser(1) [of v "length (ser v)" "[]"] by (simp add: demo_parse_def)

lemma fromCharCode_charCodes: "fromCharCode (charCodes t) = t"
  by (simp add: fromCharCode_def charCodes_def comp_def unat_of_nat)

lemma charCodes_fromCharCode: "charCodes (fromCharCode bs) = bs"
proof -
  have "word_of_nat (unat x mod 256) = x" for x :: byte
    using unsigned_less [of x, where ?'a = nat] by simp
  then show ?thesis by (simp add: fromCharCode_def charCodes_def comp_def)
qed

lemma demo_decrypt_encrypt: "demo_decrypt k iv (demo_encrypt k iv pt) = Some pt"
  by (simp add: demo_decrypt_def demo_encrypt_def demo_tag_def)

lemma demo_platform_ok: "platform_ok demo_platform"
  by (simp add: platform_ok_def demo_platform_def fromCharCode_charCodes demo_decrypt_encrypt)

lemma demo_json_serializable: "json_serializable demo_platform v"
  by (simp add: json_serializable_def demo_platform_def demo_parse_ser)

subsection \<open>What reaches the Cookie Store\<close>

lemma constructUrl_string:
  "constructUrl (Some (JStr d)) secure =
     Inr ((if truthy secure then ''https://'' else ''http://'') @ (if startsWithDot d then drop 1 d else d))"
  by (simp add: constructUrl_def Let_def)

lemma protocol_nonempty [simp]: "(if b then ''https://'' else ''http://'') \<noteq> []"
  by simp

lemma setCookie_config:
  "cookieConfig details = Inr config \<Longrightarrow>
   setCookie cookies_set jar details =
     (map_option CookieStoreError (fst (cookies_set jar config)), snd (cookies_set jar config))"
  by (simp add: setCookie_def split: prod.splits option.splits)

lemma cookieConfig_applyDetails:
  assumes "domain \<noteq> []"
  shows "\<exists>details. applyDetails domain cookie = Inr details \<and>
           cookieConfig details = Inr (appliedConfig domain cookie)"
  using assms
  by (simp add: applyDetails_def constructUrl_string cookieConfig_def appliedConfig_def
      split del: if_split cong: if_cong)

lemma cookieConfig_importDetails:
  assumes "domainString cookie = Some d"
  shows "\<exists>details. importDetails cookie = Inr details \<and>
           cookieConfig details = Inr (importedConfig cookie)"
proof -
  from assms have dom: "getProp cookie ''domain'' = Some (JStr d)"
    by (auto simp: domainString_def split: option.splits json.splits)
  from assms have dt: "domainText cookie = d" by (simp add: domainText_def)
  have same: "(if getProp cookie ''sameSite'' = Some (JStr ''no_restriction'') then Some (JStr ''no_restriction'')
                else if getProp cookie ''sameSite'' = Some (JStr ''lax'') then Some (JStr ''lax'')
                else if getProp cookie ''sameSite'' = Some (JStr ''strict'') then Some (JStr ''strict'')
                else None) = 
         (if getProp cookie ''sameSite'' \<in>
              {Some (JStr ''no_restriction''), Some (JStr ''lax''), Some (JStr ''strict'')}
         then getProp cookie ''sameSite'' else None)" (is "?l = ?r")
    by auto
  have tr: "truthy ?r \<longleftrightarrow> ?r \<noteq> None" by auto
  have t1: "\<And>x. truthy (if truthy x then x else Some (JStr ''/''))" by simp
  have t2: "\<And>x y. truthy (if truthy x \<and> \<not> truthy y then x else None) = (truthy x \<and> \<not> truthy y)" by simp
  have t3: "truthy (Some (JStr d)) = (d \<noteq> [])" by simp
  show ?thesis
    using dom
    apply (simp only: importDetails_def constructUrl_string Let_def same sum.case)
    apply (simp add: cookieConfig_def importedConfig_def dt t1 t2 tr
      split del: if_split cong: if_cong)
    apply (auto)
    done
qed

lemma tally_Nil: "tally acc [] [] = acc"
  by (simp add: tally_def)

lemma tally_ok:
  "tally acc (c # cs) (None # rs) = tally (acc\<lparr>successCount := successCount acc + 1\<rparr>) cs rs"
  by (simp add: tally_def)

lemma tally_fail:
  "tally acc (c # cs) (Some msg # rs) =
     tally (acc\<lparr>failCount := failCount acc + 1,
               errors := errors acc @ [(getProp c ''name'', CookieStoreError msg)]\<rparr>) cs rs"
  by (simp add: tally_def)

lemma applyLoop_run:
  assumes "domain \<noteq> []" and "JNull \<notin> set cookies"
  shows "applyLoop cookies_set domain cookies acc jar =
     (Inr (tally acc cookies (fst (store_run cookies_set jar (map (appliedConfig domain) cookies)))),
      snd (store_run cookies_set jar (map (appliedConfig domain) cookies)))"
  using assms(2)
proof (induction cookies arbitrary: acc jar)
  case Nil
  show ?case by (simp add: tally_Nil)
next
  case (Cons c cs)
  from cookieConfig_applyDetails [OF assms(1), of c]
  obtain details where d: "applyDetails domain c = Inr details"
    and cfg: "cookieConfig details = Inr (appliedConfig domain c)" by blast
  note sc = setCookie_config [OF cfg, of cookies_set jar]
  obtain r jar1 where step: "cookies_set jar (appliedConfig domain c) = (r, jar1)"
    by (cases "cookies_set jar (appliedConfig domain c)")
  obtain rs jar2 where rest: "store_run cookies_set jar1 (map (appliedConfig domain) cs) = (rs, jar2)"
    by (cases "store_run cookies_set jar1 (map (appliedConfig domain) cs)")
  from Cons.prems have nn: "c \<noteq> JNull" "JNull \<notin> set cs" by auto
  show ?case
  proof (cases r)
    case None
    with nn d sc step rest Cons.IH [OF nn(2)] show ?thesis
      by (simp add: tally_ok)
  next
    case (Some msg)
    with nn d sc step rest Cons.IH [OF nn(2)] show ?thesis
      by (simp add: tally_fail)
  qed
qed

lemma importLoop_run:
  assumes "\<forall>c\<in>set cookies. c \<noteq> JNull \<and> domainString c \<noteq> None"
  shows "importLoop cookies_set cookies acc jar =
     (Inr (tally acc cookies (fst (store_run cookies_set jar (map importedConfig cookies)))),
      snd (store_run cookies_set jar (map importedConfig cookies)))"
  using assms
proof (induction cookies arbitrary: acc jar)
  case Nil
  show ?case by (simp add: tally_Nil)
next
  case (Cons c cs)
  from Cons.prems obtain d where dom: "domainString c = Some d" by auto
  from cookieConfig_importDetails [OF dom]
  obtain details where d: "importDetails c = Inr details"
    and cfg: "cookieConfig details = Inr (importedConfig c)" by auto
  note sc = setCookie_config [OF cfg, of cookies_set jar]
  obtain r jar1 where step: "cookies_set jar (importedConfig c) = (r, jar1)"
    by (cases "cookies_set jar (importedConfig c)")
  obtain rs jar2 where rest: "store_run cookies_set jar1 (map importedConfig cs) = (rs, jar2)"
    by (cases "store_run cookies_set jar1 (map importedConfig cs)")
  from Cons.prems have nn: "c \<noteq> JNull" "\<forall>c\<in>set cs. c \<noteq> JNull \<and> domainString c \<noteq> None"
    by auto
  show ?case
  proof (cases r)
    case None
    with nn(1) d sc step rest Cons.IH [OF nn(2)] show ?thesis
      by (simp add: tally_ok)
  next
    case (Some msg)
    with nn(1) d sc step rest Cons.IH [OF nn(2)] show ?thesis
      by (simp add: tally_fail)
  qed
qed

lemma store_run_recording:
  "store_run (recording_store rejects) trace configs = (map rejects configs, trace @ configs)"
  by (induction configs arbitrary: trace) (simp_all add: recording_store_def)

subsection \<open>Envelope Cipher\<close>

lemma encrypt_Inr:
  assumes "encrypt P s array iv v = (Inr e, s1)"
  shows "\<exists>k. getOrCreateKey s array = (Inr k, s1) \<and>
           e = btoa (fromCharCode (iv @ aes_gcm_encrypt P (stringToCryptoKey P k) iv
                 (utf8_encode P (json_stringify P v))))"
  using assms
  by (cases "getOrCreateKey s array")
     (auto simp: encrypt_def Let_def fromCharCodeApply_def split: sum.splits if_splits)

lemma encrypt_over_limit:
  assumes "getOrCreateKey s array = (Inr k, s1)"
    and "apply_limit P < length (iv @ aes_gcm_encrypt P (stringToCryptoKey P k) iv
                                   (utf8_encode P (json_stringify P v)))"
  shows "encrypt P s array iv v = (Inl (EncryptionFailed RangeError), s1)"
  using assms by (simp add: encrypt_def Let_def fromCharCodeApply_def)

lemma within_apply_limit_key:
  "within_apply_limit P k iv v \<Longrightarrow>
   \<not> apply_limit P < length (iv @ aes_gcm_encrypt P (stringToCryptoKey P k) iv
                                 (utf8_encode P (json_stringify P v)))"
  by (simp add: within_apply_limit_def not_less)

lemma encrypt_succeeds:
  assumes "get_fails s = None" "set_fails s = None" "length array = 24"
    and "\<And>key. within_apply_limit P key iv v"
  shows "\<exists>e s1. encrypt P s array iv v = (Inr e, s1)"
proof -
  from getOrCreateKey_succeeds [OF assms(1-3)]
  obtain k s1 where "getOrCreateKey s array = (Inr k, s1)" by blast
  with within_apply_limit_key [OF assms(4)] show ?thesis
    by (simp add: encrypt_def Let_def fromCharCodeApply_def)
qed

lemma decrypt_encrypt:
  assumes ok: "platform_ok P" and js: "json_serializable P v" and len: "length iv = 12"
    and enc: "encrypt P s array iv v = (Inr e, s1)"
    and key: "masterEncryptionKey s2 = masterEncryptionKey s1" and rd: "get_fails s2 = None"
  shows "decrypt P s2 array' e = (Inr v, s2)"
proof -
  from encrypt_Inr [OF enc] obtain k where
    gk: "getOrCreateKey s array = (Inr k, s1)" and
    e: "e = btoa (fromCharCode (iv @ aes_gcm_encrypt P (stringToCryptoKey P k) iv
                 (utf8_encode P (json_stringify P v))))" by blast
  from getOrCreateKey_Inr [OF gk] have k32: "length k = 32" and "masterEncryptionKey s1 = Some k"
    by simp_all
  with key have "masterEncryptionKey s2 = Some k" by simp
  from getOrCreateKey_stored [OF this k32 rd]
  have gk2: "getOrCreateKey s2 array' = (Inr k, s2)" .
  from js have j: "json_parse P (json_stringify P v) = Some v"
    by (simp add: json_serializable_def)
  from ok have u: "\<And>t. utf8_decode P (utf8_encode P t) = t"
    and a: "\<And>k iv pt. aes_gcm_decrypt P k iv (aes_gcm_encrypt P k iv pt) = Some pt"
    by (simp_all add: platform_ok_def)
  show ?thesis
    by (simp add: decrypt_def gk2 e atob_btoa charCodes_fromCharCode len a u j)
qed

lemma encryptJSON_Inr:
  "encryptJSON P s array iv v = (Inr e, s1) \<Longrightarrow> isObject v \<and> encrypt P s array iv v = (Inr e, s1)"
  by (auto simp: encryptJSON_def split: if_splits)

lemma encrypt_nonempty:
  assumes "encrypt P s array iv v = (Inr e, s1)" and "iv \<noteq> []"
  shows "e \<noteq> []"
proof -
  from encrypt_Inr [OF assms(1)] obtain ct where "e = btoa (fromCharCode (iv @ ct))" by blast
  moreover have "length (btoa (fromCharCode (iv @ ct))) > 0"
    using assms(2) by (cases iv) (simp_all add: length_btoa fromCharCode_def)
  ultimately show ?thesis by auto
qed

lemma decryptJSON_encrypt:
  assumes ok: "platform_ok P" and js: "json_serializable P v" and len: "length iv = 12"
    and enc: "encryptJSON P s array iv v = (Inr e, s1)"
    and key: "masterEncryptionKey s2 = masterEncryptionKey s1" and rd: "get_fails s2 = None"
  shows "decryptJSON P s2 array' (PStr e) = (Inr v, s2)"
  using encryptJSON_Inr [OF enc] decrypt_encrypt [OF ok js len _ key rd, of s array e array']
  by (simp add: decryptJSON_def)

lemma getOrCreateKey_frame:
  "getOrCreateKey s array = (r, s1) \<Longrightarrow>
   get_fails s1 = get_fails s \<and> set_fails s1 = set_fails s \<and> presets s1 = presets s"
  by (auto simp: getOrCreateKey_def create_key_def Let_def split: option.splits if_splits)

lemma encrypt_frame:
  "encrypt P s array iv v = (r, s1) \<Longrightarrow>
   get_fails s1 = get_fails s \<and> set_fails s1 = set_fails s \<and> presets s1 = presets s"
  by (cases "getOrCreateKey s array")
     (auto simp: encrypt_def Let_def split: sum.splits dest: getOrCreateKey_frame)

lemma encrypt_decrypt_within_limit:
  assumes "platform_ok P" and "json_serializable P v" and "length iv = 12"
  shows "(\<forall>e s1. encrypt P s array iv v = (Inr e, s1) \<longrightarrow>
            (\<forall>s2 array'. masterEncryptionKey s2 = masterEncryptionKey s1 \<and> get_fails s2 = None \<longrightarrow>
               decrypt P s2 array' e = (Inr v, s2))) \<and>
         (get_fails s = None \<and> set_fails s = None \<and> length array = 24 \<and>
          (\<forall>key. within_apply_limit P key iv v) \<longrightarrow>
            (\<exists>e s1. encrypt P s array iv v = (Inr e, s1) \<and> decrypt P s1 array' e = (Inr v, s1)))"
proof (intro conjI allI impI)
  fix e s1 array' and s2 :: blob_store
  assume "encrypt P s array iv v = (Inr e, s1)"
    and "masterEncryptionKey s2 = masterEncryptionKey s1 \<and> get_fails s2 = None"
  then show "decrypt P s2 array' e = (Inr v, s2)"
    using decrypt_encrypt [OF assms] by blast
next
  assume a: "get_fails s = None \<and> set_fails s = None \<and> length array = 24 \<and>
      (\<forall>key. within_apply_limit P key iv v)"
  then obtain e s1 where enc: "encrypt P s array iv v = (Inr e, s1)"
    using encrypt_succeeds [of s array P iv v] by blast
  from encrypt_frame [OF enc] a have "get_fails s1 = None" by simp
  from decrypt_encrypt [OF assms enc refl this] enc
  show "\<exists>e s1. encrypt P s array iv v = (Inr e, s1) \<and> decrypt P s1 array' e = (Inr v, s1)"
    by blast
qed

lemma length_demo_tag: "length (demo_tag k iv) = 16"
  by (simp add: demo_tag_def min_def)

lemma demo_within_apply_limit:
  "length iv + length (ser v) + 16 \<le> 130000 \<Longrightarrow> within_apply_limit demo_platform key iv v"
  by (simp add: within_apply_limit_def demo_platform_def demo_encrypt_def length_demo_tag
      charCodes_def)

lemma length_ser_JStr: "length (ser (JStr t)) = 2 * length t + 2"
  by (simp add: ser_str_def ser_nat_def)

lemma getOrCreateKey_keyed_store: "getOrCreateKey keyed_store array = (Inr demo_key, keyed_store)"
  by (rule getOrCreateKey_stored) (simp_all add: keyed_store_def empty_store_def demo_key_def)

lemma encrypt_demo:
  "encrypt demo_platform empty_store zero24 demo_iv demo_value = (Inr demo_envelope, keyed_store)"
  by (simp add: encrypt_def getOrCreateKey_empty_store stringToCryptoKey_def demo_platform_def
      demo_iv_def demo_value_def demo_envelope_def demo_key_def ser_str_def ser_nat_def
      charCodes_def fromCharCode_def fromCharCodeApply_def demo_encrypt_def demo_tag_def
      b64char_def b64chars_def Let_def)

text \<open>
  C1, evaluated where it fails. The platform satisfies the contracts, the value (a string
  of 200000 characters) is JSON-serializable and the nonce has 12 bytes, on a store that
  holds a valid master secret. Nonce, ciphertext and tag are more bytes than
  \<^verbatim>\<open>String.fromCharCode.apply\<close> passes as arguments: \<^verbatim>\<open>encrypt\<close> fails with the
  wrapped \<^verbatim>\<open>RangeError\<close> and there is no envelope to decrypt. Lemma
  \<open>encrypt_decrypt_within_limit\<close> proves the round trip for every value whose bytes are
  within the limit, and for every envelope that \<^verbatim>\<open>encrypt\<close> does return.
\<close>

theorem encrypt_big_value_fails:
  "platform_ok demo_platform \<and> json_serializable demo_platform demo_big_value \<and>
   length demo_iv = 12 \<and>
   encrypt demo_platform keyed_store [] demo_iv demo_big_value =
     (Inl (EncryptionFailed RangeError), keyed_store)"
proof -
  have len: "length demo_iv = 12" by (simp add: demo_iv_def)
  have big: "length (ser demo_big_value) = 400002"
    unfolding demo_big_value_def length_ser_JStr by simp
  have "apply_limit demo_platform <
      length (demo_iv @ aes_gcm_encrypt demo_platform (stringToCryptoKey demo_platform demo_key)
                demo_iv (utf8_encode demo_platform (json_stringify demo_platform demo_big_value)))"
    by (simp add: demo_platform_def demo_encrypt_def charCodes_def big len)
  from encrypt_over_limit [OF getOrCreateKey_keyed_store this]
  have "encrypt demo_platform keyed_store [] demo_iv demo_big_value =
     (Inl (EncryptionFailed RangeError), keyed_store)" .
  with demo_platform_ok demo_json_serializable len show ?thesis by simp
qed

subsection \<open>Preset Store\<close>

lemma getOrCreateKey_ready:
  assumes "get_fails s = None"
    and "(\<exists>k. masterEncryptionKey s = Some k \<and> length k = 32) \<or>
         (set_fails s = None \<and> length array = 24)"
  shows "\<exists>k s1. getOrCreateKey s array = (Inr k, s1)"
  using assms
  by (auto simp: getOrCreateKey_def create_key_def Let_def length_generateEncryptionKey
      split: option.splits)

lemma encryptJSON_ready:
  assumes "isObject v" and "get_fails s = None"
    and "(\<exists>k. masterEncryptionKey s = Some k \<and> length k = 32) \<or>
         (set_fails s = None \<and> length array = 24)"
    and "\<And>key. within_apply_limit P key iv v"
  shows "\<exists>e s1. encryptJSON P s array iv v = (Inr e, s1)"
proof -
  from getOrCreateKey_ready [OF assms(2,3)]
  obtain k s1 where "getOrCreateKey s array = (Inr k, s1)" by blast
  with within_apply_limit_key [OF assms(4)] assms(1) show ?thesis
    by (simp add: encryptJSON_def encrypt_def Let_def fromCharCodeApply_def)
qed

lemma encryptJSON_frame:
  "encryptJSON P s array iv v = (r, s1) \<Longrightarrow>
   get_fails s1 = get_fails s \<and> set_fails s1 = set_fails s \<and> presets s1 = presets s"
  by (auto simp: encryptJSON_def split: if_splits dest: encrypt_frame)

lemma encryptJSON_key:
  assumes "encryptJSON P s array iv v = (Inr e, s1)"
  shows "\<exists>k. masterEncryptionKey s1 = Some k \<and> length k = 32"
proof -
  from encryptJSON_Inr [OF assms] have "encrypt P s array iv v = (Inr e, s1)" by simp
  from encrypt_Inr [OF this] obtain k where "getOrCreateKey s array = (Inr k, s1)" by blast
  from getOrCreateKey_Inr [OF this] show ?thesis by blast
qed

lemma isArray_isObject: "isArray v \<Longrightarrow> isObject v"
  by (cases v) simp_all

lemma trim_Nil: "trim [] = []"
  by (simp add: trim_def)

lemma savePreset_Inr:
  assumes "savePreset P s array iv presetName cookies = (Inr r, s')"
  shows "\<exists>e s1. encryptJSON P s array iv cookies = (Inr e, s1) \<and> r = presetName \<and>
           s' = s1\<lparr>presets := js_set (presets s1) presetName (PStr e)\<rparr> \<and>
           get_fails s1 = None \<and> set_fails s1 = None \<and> trim presetName \<noteq> [] \<and> isArray cookies"
  using assms
  by (cases "encryptJSON P s array iv cookies")
     (auto simp: savePreset_def Let_def split: if_splits sum.splits option.splits)

lemma savePreset_ready:
  assumes "trim presetName \<noteq> []" and "isArray cookies"
    and "get_fails s = None" and "set_fails s = None"
    and "(\<exists>k. masterEncryptionKey s = Some k \<and> length k = 32) \<or> length array = 24"
    and "\<And>key. within_apply_limit P key iv cookies"
  shows "\<exists>e s1. encryptJSON P s array iv cookies = (Inr e, s1) \<and>
           savePreset P s array iv presetName cookies =
             (Inr presetName, s1\<lparr>presets := js_set (presets s) presetName (PStr e)\<rparr>)"
proof -
  from assms(1) have ne: "presetName \<noteq> []" using trim_Nil by auto
  from encryptJSON_ready [OF isArray_isObject [OF assms(2)] assms(3) _ assms(6), of array]
    assms(4,5)
  obtain e s1 where enc: "encryptJSON P s array iv cookies = (Inr e, s1)" by blast
  from encryptJSON_frame [OF enc] assms(3,4)
  have "get_fails s1 = None" "set_fails s1 = None" "presets s1 = presets s" by simp_all
  with enc ne assms(1,2) show ?thesis by (simp add: savePreset_def Let_def)
qed

lemma js_get_js_set:
  "name \<noteq> ''__proto__'' \<or> m name \<noteq> None \<Longrightarrow> js_get (js_set m name v) name = Some v"
  by (auto simp: js_get_def js_set_def)

lemma decrypt_presets:
  "decrypt P (s\<lparr>presets := m\<rparr>) array e =
     (fst (decrypt P s array e), (snd (decrypt P s array e))\<lparr>presets := m\<rparr>)"
  by (auto simp: decrypt_def getOrCreateKey_def create_key_def Let_def
      split: option.splits sum.splits prod.splits)

lemma decryptJSON_presets:
  "decryptJSON P (s\<lparr>presets := m\<rparr>) array v =
     (fst (decryptJSON P s array v), (snd (decryptJSON P s array v))\<lparr>presets := m\<rparr>)"
proof (cases v)
  case (PStr e)
  then show ?thesis
    by (cases "decrypt P s array e") (auto simp: decryptJSON_def decrypt_presets split: sum.splits)
next
  case POther
  then show ?thesis by (simp add: decryptJSON_def)
qed

lemma loadPreset_after_save:
  assumes ok: "platform_ok P" and js: "json_serializable P cookies" and len: "length iv = 12"
    and sv: "savePreset P s array iv presetName cookies = (Inr r, s')"
    and np: "presetName \<noteq> ''__proto__''"
  shows "loadPreset P s' array' presetName = (Inr cookies, s')"
proof -
  from savePreset_Inr [OF sv] obtain e s1 where
    enc: "encryptJSON P s array iv cookies = (Inr e, s1)" and
    s': "s' = s1\<lparr>presets := js_set (presets s1) presetName (PStr e)\<rparr>" and
    rd: "get_fails s1 = None" and tn: "trim presetName \<noteq> []" by blast
  from tn have ne: "presetName \<noteq> []" using trim_Nil by auto
  from len have "iv \<noteq> []" by auto
  with encrypt_nonempty encryptJSON_Inr [OF enc] have e: "e \<noteq> []" by blast
  have key: "masterEncryptionKey s' = masterEncryptionKey s1" and rd': "get_fails s' = None"
    using s' rd by simp_all
  from decryptJSON_encrypt [OF ok js len enc key rd']
  have "decryptJSON P s' array' (PStr e) = (Inr cookies, s')" .
  moreover have "js_get (presets s') presetName = Some (PStr e)"
    using np by (simp add: s' js_get_js_set)
  ultimately show ?thesis using ne rd' e by (simp add: loadPreset_def)
qed

lemma save_save_load:
  assumes ok: "platform_ok P" and js: "json_serializable P Y"
    and len1: "length iv1 = 12" and len2: "length iv2 = 12"
    and tn: "trim presetName \<noteq> []" and np: "presetName \<noteq> ''__proto__''"
    and x: "isArray X" and y: "isArray Y"
    and rd: "get_fails s = None" and wr: "set_fails s = None" and a1: "length array1 = 24"
    and lx: "\<And>key. within_apply_limit P key iv1 X"
    and ly: "\<And>key. within_apply_limit P key iv2 Y"
  shows "\<exists>s1 s2. savePreset P s array1 iv1 presetName X = (Inr presetName, s1) \<and>
           savePreset P s1 array2 iv2 presetName Y = (Inr presetName, s2) \<and>
           loadPreset P s2 array3 presetName = (Inr Y, s2)"
proof -
  from savePreset_ready [OF tn x rd wr _ lx, of array1] a1
  obtain e1 t1 where enc1: "encryptJSON P s array1 iv1 X = (Inr e1, t1)"
    and sv1: "savePreset P s array1 iv1 presetName X =
        (Inr presetName, t1\<lparr>presets := js_set (presets s) presetName (PStr e1)\<rparr>)" by blast
  let ?s1 = "t1\<lparr>presets := js_set (presets s) presetName (PStr e1)\<rparr>"
  from encryptJSON_frame [OF enc1] rd wr
  have rd1: "get_fails ?s1 = None" and wr1: "set_fails ?s1 = None" by simp_all
  from encryptJSON_key [OF enc1]
  have k1: "\<exists>k. masterEncryptionKey ?s1 = Some k \<and> length k = 32" by simp
  from savePreset_ready [OF tn y rd1 wr1 _ ly, of array2] k1
  obtain s2 where sv2: "savePreset P ?s1 array2 iv2 presetName Y = (Inr presetName, s2)"
    by blast
  from loadPreset_after_save [OF ok js len2 sv2 np]
  have "loadPreset P s2 array3 presetName = (Inr Y, s2)" .
  with sv1 sv2 show ?thesis by blast
qed

lemma trim_proto: "trim ''__proto__'' = ''__proto__''"
  by (simp add: trim_def js_whitespace_def)

lemma savePreset_proto:
  assumes "isArray cookies" and "within_apply_limit P demo_key iv cookies"
  shows "savePreset P keyed_store array iv ''__proto__'' cookies = (Inr ''__proto__'', keyed_store)"
proof -
  have st: "get_fails keyed_store = None" "set_fails keyed_store = None"
    "masterEncryptionKey keyed_store = Some demo_key" "presets keyed_store = Map.empty"
    by (simp_all add: keyed_store_def empty_store_def)
  have "length demo_key = 32" by (simp add: demo_key_def)
  from getOrCreateKey_stored [OF st(3) this st(1)]
  have "getOrCreateKey keyed_store array = (Inr demo_key, keyed_store)" .
  with within_apply_limit_key [OF assms(2)] assms(1)
    isArray_isObject [OF assms(1)] st
  show ?thesis
    by (simp add: savePreset_def trim_proto encryptJSON_def encrypt_def Let_def js_set_def
        fromCharCodeApply_def)
qed

lemma demo_small_values_within_limit:
  "within_apply_limit demo_platform key demo_iv (JArr [])"
  "within_apply_limit demo_platform key demo_iv demo_value"
  by (rule demo_within_apply_limit,
      simp add: demo_iv_def demo_value_def ser_str_def ser_nat_def)+

lemma savePreset_stores:
  assumes sv: "savePreset P s array iv presetName cookies = (Inr r, s')"
    and np: "presetName \<noteq> ''__proto__''" and iv: "iv \<noteq> []"
  shows "\<exists>e. e \<noteq> [] \<and> presets s' = (presets s)(presetName \<mapsto> PStr e)"
proof -
  from savePreset_Inr [OF sv] obtain e s1 where
    enc: "encryptJSON P s array iv cookies = (Inr e, s1)" and
    s': "s' = s1\<lparr>presets := js_set (presets s1) presetName (PStr e)\<rparr>" by blast
  from encryptJSON_frame [OF enc] have "presets s1 = presets s" by simp
  with s' np have "presets s' = (presets s)(presetName \<mapsto> PStr e)" by (simp add: js_set_def)
  moreover have "e \<noteq> []"
    using encrypt_nonempty iv encryptJSON_Inr [OF enc] by blast
  ultimately show ?thesis by blast
qed

lemma loadPreset_absent:
  assumes "presets s name = None" and "name \<notin> set object_prototype_keys"
    and "name \<noteq> []" and "get_fails s = None"
  shows "loadPreset P s array name = (Inl (PresetNotFound name), s)"
  using assms by (simp add: loadPreset_def js_get_def)

lemma loadPreset_other_name_after_save:
  assumes sv: "savePreset P s array iv presetName cookies = (Inr r, s')"
    and np: "presetName \<noteq> ''__proto__''"
    and other: "other \<noteq> presetName" "other \<noteq> []" "presets s other = None"
      "other \<notin> set object_prototype_keys"
  shows "loadPreset P s' array' other = (Inl (PresetNotFound other), s')"
proof -
  from savePreset_Inr [OF sv] obtain e s1 where
    enc: "encryptJSON P s array iv cookies = (Inr e, s1)" and
    s': "s' = s1\<lparr>presets := js_set (presets s1) presetName (PStr e)\<rparr>" and
    rd: "get_fails s1 = None" by blast
  from encryptJSON_frame [OF enc] have "presets s1 = presets s" by simp
  with s' other(1,3) have a: "presets s' other = None" by (simp add: js_set_def)
  from s' rd have b: "get_fails s' = None" by simp
  from loadPreset_absent [OF a other(4) other(2) b] show ?thesis .
qed

lemma renamePreset_Inr:
  assumes "renamePreset s oldName newName = (Inr r, s')"
  shows "\<exists>v. js_get (presets s) oldName = Some v \<and> truthy_pval (Some v) \<and>
           \<not> truthy_pval (js_get (presets s) newName) \<and> oldName \<noteq> newName \<and>
           oldName \<noteq> [] \<and> newName \<noteq> [] \<and> get_fails s = None \<and>
           s' = s\<lparr>presets := js_delete (js_set (presets s) newName v) oldName\<rparr>"
  using assms
  by (auto simp: renamePreset_def Let_def split: if_splits option.splits)

lemma proto_truthy: "presets s ''__proto__'' = None \<Longrightarrow> truthy_pval (js_get (presets s) ''__proto__'')"
  by (simp add: js_get_def object_prototype_keys_def)

lemma rename_then_load:
  assumes rn: "renamePreset s oldName newName = (Inr r, s')"
    and np: "oldName \<notin> set object_prototype_keys"
  shows "loadPreset P s' array oldName = (Inl (PresetNotFound oldName), s') \<and>
         loadPreset P s' array newName =
           (fst (loadPreset P s array oldName),
            (snd (loadPreset P s array oldName))\<lparr>presets := presets s'\<rparr>)"
proof -
  from renamePreset_Inr [OF rn] obtain v where
    old: "js_get (presets s) oldName = Some v" and tv: "truthy_pval (Some v)" and
    new: "\<not> truthy_pval (js_get (presets s) newName)" and neq: "oldName \<noteq> newName" and
    ne: "oldName \<noteq> []" "newName \<noteq> []" and rd: "get_fails s = None" and
    s': "s' = s\<lparr>presets := js_delete (js_set (presets s) newName v) oldName\<rparr>" by blast
  have rd': "get_fails s' = None" using s' rd by simp
  have "presets s' oldName = None" using s' by (simp add: js_delete_def)
  from loadPreset_absent [OF this np ne(1) rd']
  have A: "loadPreset P s' array oldName = (Inl (PresetNotFound oldName), s')" .
  have "newName \<noteq> ''__proto__'' \<or> presets s newName \<noteq> None"
    using new proto_truthy by blast
  then have "js_get (js_set (presets s) newName v) newName = Some v" by (rule js_get_js_set)
  then have "js_get (presets s') newName = Some v"
    using neq by (simp add: s' js_get_def js_delete_def)
  then have "loadPreset P s' array newName = decryptJSON P s' array v"
    using ne(2) rd' tv by (simp add: loadPreset_def)
  moreover have "loadPreset P s array oldName = decryptJSON P s array v"
    using ne(1) rd tv old by (simp add: loadPreset_def)
  moreover have "decryptJSON P s' array v =
      (fst (decryptJSON P s array v), (snd (decryptJSON P s array v))\<lparr>presets := presets s'\<rparr>)"
    using decryptJSON_presets [where P = P and s = s and m = "presets s'" and array = array and v = v] s'
    by simp
  ultimately show ?thesis using A by simp
qed

lemma renamePreset_failure_keeps_store:
  "renamePreset s oldName newName = (Inl e, s') \<Longrightarrow> s' = s"
  by (auto simp: renamePreset_def Let_def split: if_splits option.splits)

lemma decrypt_demo:
  "decrypt demo_platform keyed_store array demo_envelope = (Inr demo_value, keyed_store)"
proof -
  have len: "length demo_iv = 12" by (simp add: demo_iv_def)
  have rd: "get_fails keyed_store = None" by (simp add: keyed_store_def empty_store_def)
  from decrypt_encrypt [OF demo_platform_ok demo_json_serializable len encrypt_demo refl rd]
  show ?thesis .
qed

text \<open>
  C3, evaluated where it fails. The store holds a preset under \<^verbatim>\<open>constructor\<close> and
  none under \<^verbatim>\<open>B\<close>. The rename succeeds and removes the entry, and afterwards
  \<^verbatim>\<open>load("B")\<close> returns what \<^verbatim>\<open>load("constructor")\<close> returned before; but
  \<^verbatim>\<open>load("constructor")\<close> does not fail with the not-found error: the lookup finds
  the function that \<^verbatim>\<open>Object.prototype\<close> defines under that name, and the load
  fails in \<^verbatim>\<open>decryptJSON\<close>. For every name that \<^verbatim>\<open>Object.prototype\<close> does not
  define, lemma \<open>rename_then_load\<close> proves the claim.
\<close>

theorem rename_constructor_then_load:
  "presets constructor_store ''constructor'' = Some (PStr demo_envelope) \<and>
   presets constructor_store ''B'' = None \<and>
   fst (loadPreset demo_platform constructor_store [] ''constructor'') = Inr demo_value \<and>
   fst (renamePreset constructor_store ''constructor'' ''B'') = Inr (''constructor'', ''B'') \<and>
   presets (snd (renamePreset constructor_store ''constructor'' ''B'')) ''constructor'' = None \<and>
   fst (loadPreset demo_platform (snd (renamePreset constructor_store ''constructor'' ''B'')) []
          ''B'') = Inr demo_value \<and>
   fst (loadPreset demo_platform (snd (renamePreset constructor_store ''constructor'' ''B'')) []
          ''constructor'') = Inl DecryptJSONRequiresString"
proof -
  have st: "get_fails constructor_store = None" "set_fails constructor_store = None"
    "presets constructor_store = [''constructor'' \<mapsto> PStr demo_envelope]"
    "constructor_store = keyed_store\<lparr>presets := [''constructor'' \<mapsto> PStr demo_envelope]\<rparr>"
    by (simp_all add: constructor_store_def keyed_store_def empty_store_def)
  have env: "demo_envelope \<noteq> []" by (simp add: demo_envelope_def)
  have rdk: "get_fails keyed_store = None" by (simp add: keyed_store_def empty_store_def)
  have ld: "fst (loadPreset demo_platform constructor_store [] ''constructor'') = Inr demo_value"
    using env rdk
    by (simp add: loadPreset_def constructor_store_def js_get_def decryptJSON_def
        decrypt_presets decrypt_demo demo_value_def)
  have rn: "renamePreset constructor_store ''constructor'' ''B'' =
      (Inr (''constructor'', ''B''), constructor_store\<lparr>presets := [''B'' \<mapsto> PStr demo_envelope]\<rparr>)"
    using env
    by (auto simp: renamePreset_def st(1,2,3) js_get_def js_set_def js_delete_def
        object_prototype_keys_def Let_def)
  have ld2: "fst (loadPreset demo_platform
       (constructor_store\<lparr>presets := [''B'' \<mapsto> PStr demo_envelope]\<rparr>) [] ''constructor'')
      = Inl DecryptJSONRequiresString"
    by (simp add: loadPreset_def st(1) js_get_def object_prototype_keys_def decryptJSON_def)
  have ld3: "fst (loadPreset demo_platform
       (constructor_store\<lparr>presets := [''B'' \<mapsto> PStr demo_envelope]\<rparr>) [] ''B'')
      = Inr demo_value"
    using env rdk
    by (simp add: loadPreset_def constructor_store_def js_get_def decryptJSON_def
        decrypt_presets decrypt_demo demo_value_def)
  show ?thesis using ld rn ld2 ld3 by (simp add: st(3))
qed

text \<open>
  C4, as stated, fails: the name \<^verbatim>\<open>A\<close> is absent from the empty map, and
  \<^verbatim>\<open>rename("A", "A")\<close> fails with the error for identical names, not with the
  not-found error. The check for identical names comes before the store is read.
\<close>

theorem rename_identical_absent_name:
  "presets empty_store ''A'' = None \<and>
   renamePreset empty_store ''A'' ''A'' = (Inl NewNameMustDiffer, empty_store) \<and>
   fst (renamePreset empty_store ''A'' ''A'') \<noteq> Inl (PresetNotFound ''A'')"
  by (simp add: renamePreset_def empty_store_def)

text \<open>
  C4, amended. \<^verbatim>\<open>rename\<close> checks in this order. It fails with an invalid-argument
  error when a name is empty or the two names are identical, whatever the map holds. On a
  store that can be read and for two different non-empty names, it fails with the not-found
  error when the map has no entry under the old name (and \<^verbatim>\<open>Object.prototype\<close>
  defines nothing under it), and with the already-exists error when the map has entries
  with non-empty values under both names. Every failure leaves the whole store unchanged.
\<close>

theorem renamePreset_failure_order:
  "(oldName = [] \<or> newName = [] \<longrightarrow>
      renamePreset s oldName newName = (Inl BothNamesRequired, s)) \<and>
   (oldName \<noteq> [] \<and> oldName = newName \<longrightarrow>
      renamePreset s oldName newName = (Inl NewNameMustDiffer, s)) \<and>
   (get_fails s = None \<and> oldName \<noteq> [] \<and> newName \<noteq> [] \<and> oldName \<noteq> newName \<and>
    presets s oldName = None \<and> oldName \<notin> set object_prototype_keys \<longrightarrow>
      renamePreset s oldName newName = (Inl (PresetNotFound oldName), s)) \<and>
   (get_fails s = None \<and> oldName \<noteq> [] \<and> newName \<noteq> [] \<and> oldName \<noteq> newName \<and>
    (\<exists>v. presets s oldName = Some v \<and> truthy_pval (Some v)) \<and>
    (\<exists>w. presets s newName = Some w \<and> truthy_pval (Some w)) \<longrightarrow>
      renamePreset s oldName newName = (Inl (PresetAlreadyExists newName), s)) \<and>
   (\<forall>e s'. renamePreset s oldName newName = (Inl e, s') \<longrightarrow> s' = s)"
proof (intro conjI impI allI)
  fix e s' assume "renamePreset s oldName newName = (Inl e, s')"
  then show "s' = s" by (rule renamePreset_failure_keeps_store)
qed (auto simp: renamePreset_def js_get_def)

theorem renamePreset_failure_order_witness:
  "renamePreset two_preset_store [] ''B'' = (Inl BothNamesRequired, two_preset_store) \<and>
   renamePreset two_preset_store ''A'' ''A'' = (Inl NewNameMustDiffer, two_preset_store) \<and>
   renamePreset two_preset_store ''C'' ''B'' = (Inl (PresetNotFound ''C''), two_preset_store) \<and>
   renamePreset two_preset_store ''A'' ''B'' = (Inl (PresetAlreadyExists ''B''), two_preset_store)"
proof -
  have st: "get_fails two_preset_store = None"
    "presets two_preset_store ''A'' = Some (PStr demo_envelope)"
    "presets two_preset_store ''B'' = Some (PStr demo_envelope)"
    "presets two_preset_store ''C'' = None"
    by (simp_all add: two_preset_store_def keyed_store_def empty_store_def)
  have env: "truthy_pval (Some (PStr demo_envelope))" by (simp add: demo_envelope_def)
  have c: "''C'' \<notin> set object_prototype_keys" by (simp add: object_prototype_keys_def)
  from renamePreset_failure_order [of "[]" "''B''" two_preset_store]
  have 1: "renamePreset two_preset_store [] ''B'' = (Inl BothNamesRequired, two_preset_store)"
    by simp
  from renamePreset_failure_order [of "''A''" "''A''" two_preset_store]
  have 2: "renamePreset two_preset_store ''A'' ''A'' = (Inl NewNameMustDiffer, two_preset_store)"
    by simp
  from renamePreset_failure_order [of "''C''" "''B''" two_preset_store] st c
  have 3: "renamePreset two_preset_store ''C'' ''B'' = (Inl (PresetNotFound ''C''), two_preset_store)"
    by simp
  from renamePreset_failure_order [of "''A''" "''B''" two_preset_store] st env
  have 4: "renamePreset two_preset_store ''A'' ''B'' =
      (Inl (PresetAlreadyExists ''B''), two_preset_store)"
    by simp
  from 1 2 3 4 show ?thesis by simp
qed

text \<open>
  C5, evaluated where it fails. The name \<^verbatim>\<open>__proto__\<close> has a non-empty trimmed
  form. Both saves report success, but the assignment \<^verbatim>\<open>presets["__proto__"] = ...\<close>
  creates no property, the store stays as it was, and the load finds the prototype object
  under the name and fails in \<^verbatim>\<open>decryptJSON\<close>. For every other name, lemma
  \<open>save_save_load\<close> proves the claim for cookie arrays that \<^verbatim>\<open>encrypt\<close> accepts.
\<close>

theorem save_twice_proto_then_load:
  "trim ''__proto__'' \<noteq> [] \<and>
   savePreset demo_platform keyed_store [] demo_iv ''__proto__'' (JArr []) =
     (Inr ''__proto__'', keyed_store) \<and>
   savePreset demo_platform keyed_store [] demo_iv ''__proto__'' demo_value =
     (Inr ''__proto__'', keyed_store) \<and>
   loadPreset demo_platform keyed_store [] ''__proto__'' =
     (Inl DecryptJSONRequiresString, keyed_store)"
proof -
  have "loadPreset demo_platform keyed_store [] ''__proto__'' =
     (Inl DecryptJSONRequiresString, keyed_store)"
    by (simp add: loadPreset_def keyed_store_def empty_store_def js_get_def
        object_prototype_keys_def decryptJSON_def)
  moreover have "isArray demo_value" by (simp add: demo_value_def)
  ultimately show ?thesis
    by (simp add: savePreset_proto demo_small_values_within_limit trim_proto)
qed

text \<open>
  C10, evaluated where it fails. For the name \<^verbatim>\<open>__proto__\<close>, whose trimmed form is
  not empty, \<^verbatim>\<open>save\<close> reports success and stores nothing under the name: the map
  is still empty. For every other name, lemma \<open>savePreset_stores\<close> shows that the entry
  is stored under exactly the name given, and lemma \<open>loadPreset_other_name_after_save\<close>
  that a load under a different name, absent before, fails with the not-found error.
\<close>

theorem save_proto_stores_nothing:
  "trim ''__proto__'' \<noteq> [] \<and>
   fst (savePreset demo_platform keyed_store [] demo_iv ''__proto__'' demo_value) = Inr ''__proto__'' \<and>
   presets (snd (savePreset demo_platform keyed_store [] demo_iv ''__proto__'' demo_value))
     = Map.empty"
proof -
  have "presets keyed_store = Map.empty" by (simp add: keyed_store_def empty_store_def)
  moreover have "isArray demo_value" by (simp add: demo_value_def)
  ultimately show ?thesis
    by (simp add: savePreset_proto demo_small_values_within_limit trim_proto)
qed

subsection \<open>Application Protocol and Import Codec\<close>

lemma loadPreset_work_store:
  "loadPreset demo_platform work_store array ''work'' = (Inr (JArr demo_cookies), work_store)"
proof -
  have st: "get_fails keyed_store = None" "set_fails keyed_store = None"
    "\<exists>k. masterEncryptionKey keyed_store = Some k \<and> length k = 32"
    by (simp_all add: keyed_store_def empty_store_def demo_key_def)
  have tn: "trim ''work'' \<noteq> []" by (simp add: trim_def js_whitespace_def)
  have arr: "isArray (JArr demo_cookies)" by simp
  have fits: "within_apply_limit demo_platform key demo_iv (JArr demo_cookies)" for key
    by (rule demo_within_apply_limit)
       (simp add: demo_iv_def demo_cookies_def demo_cookie1_def demo_cookie2_def
          demo_cookie3_def ser_str_def ser_nat_def ser_int_def)
  from savePreset_ready [OF tn arr st(1,2) _ fits, of "[]"] st(3)
  obtain s' where "savePreset demo_platform keyed_store [] demo_iv ''work'' (JArr demo_cookies)
      = (Inr ''work'', s')" by blast
  then have sv: "savePreset demo_platform keyed_store [] demo_iv ''work'' (JArr demo_cookies)
      = (Inr ''work'', work_store)" by (simp add: work_store_def)
  have len: "length demo_iv = 12" by (simp add: demo_iv_def)
  from loadPreset_after_save [OF demo_platform_ok demo_json_serializable len sv]
  show ?thesis by simp
qed

lemma loadPreset_Inr_name:
  "loadPreset P s array presetName = (Inr v, s1) \<Longrightarrow> presetName \<noteq> []"
  by (auto simp: loadPreset_def split: if_splits)

lemma length_store_run: "length (fst (store_run cookies_set jar configs)) = length configs"
proof (induction configs arbitrary: jar)
  case Nil
  show ?case by simp
next
  case (Cons c cs)
  obtain r jar1 where step: "cookies_set jar c = (r, jar1)" by (cases "cookies_set jar c")
  obtain rs jar2 where rest: "store_run cookies_set jar1 cs = (rs, jar2)"
    by (cases "store_run cookies_set jar1 cs")
  from Cons [of jar1] rest have "length rs = length cs" by simp
  with step rest show ?case by simp
qed

lemma applyPreset_run:
  assumes load: "loadPreset P s array presetName = (Inr (JArr cookies), s1)"
    and dom: "domain \<noteq> []" and nn: "JNull \<notin> set cookies"
  shows "applyPreset P cookies_set s jar array presetName domain =
     (Inr (bulk_response (tally \<lparr>successCount = 0, failCount = 0, errors = []\<rparr> cookies
        (fst (store_run cookies_set jar (map (appliedConfig domain) cookies))))),
      s1, snd (store_run cookies_set jar (map (appliedConfig domain) cookies)))"
  using loadPreset_Inr_name [OF load] dom
  by (simp add: applyPreset_def load applyLoop_run [OF dom nn])

text \<open>
  C2. Let the preset decrypt to the sequence \<open>cookies\<close>, none of them \<^verbatim>\<open>null\<close>, and
  let the target domain be non-empty. \<^verbatim>\<open>applyPreset\<close> asks the Cookie Store to write
  one configuration per cookie, in the original order, each on the jar the previous write
  left, whatever the earlier answers were. It returns the number of accepted writes as the
  applied count, the number of rejected writes as the failed count, and one failure detail
  per rejected write, in order, with that cookie's name. For three cookies of which the
  Cookie Store rejects exactly the second, it returns 2, 1 and the single detail that
  carries the second cookie's name.
\<close>

theorem applyPreset_partial_failure:
  assumes "loadPreset P s array presetName = (Inr (JArr cookies), s1)"
    and "domain \<noteq> []" and "JNull \<notin> set cookies"
  shows "length (fst (store_run cookies_set jar (map (appliedConfig domain) cookies))) = length cookies \<and>
     applyPreset P cookies_set s jar array presetName domain =
       (Inr (length (filter (\<lambda>r. r = None)
                      (fst (store_run cookies_set jar (map (appliedConfig domain) cookies)))),
             length (filter (\<lambda>r. r \<noteq> None)
                      (fst (store_run cookies_set jar (map (appliedConfig domain) cookies)))),
             (if failure_details cookies
                   (fst (store_run cookies_set jar (map (appliedConfig domain) cookies))) = []
              then None
              else Some (failure_details cookies
                   (fst (store_run cookies_set jar (map (appliedConfig domain) cookies)))))),
        s1, snd (store_run cookies_set jar (map (appliedConfig domain) cookies))) \<and>
     (\<forall>c1 c2 c3 msg. cookies = [c1, c2, c3] \<and>
         fst (store_run cookies_set jar (map (appliedConfig domain) cookies)) = [None, Some msg, None]
        \<longrightarrow> fst (applyPreset P cookies_set s jar array presetName domain) =
              Inr (2, 1, Some [(getProp c2 ''name'', CookieStoreError msg)]))"
proof -
  let ?outs = "fst (store_run cookies_set jar (map (appliedConfig domain) cookies))"
  have A: "length ?outs = length cookies" by (simp add: length_store_run)
  have B: "applyPreset P cookies_set s jar array presetName domain =
       (Inr (length (filter (\<lambda>r. r = None) ?outs), length (filter (\<lambda>r. r \<noteq> None) ?outs),
             (if failure_details cookies ?outs = [] then None
              else Some (failure_details cookies ?outs))),
        s1, snd (store_run cookies_set jar (map (appliedConfig domain) cookies)))"
    by (simp add: applyPreset_run [OF assms] bulk_response_def tally_def)
  have C: "\<forall>c1 c2 c3 msg. cookies = [c1, c2, c3] \<and> ?outs = [None, Some msg, None]
        \<longrightarrow> fst (applyPreset P cookies_set s jar array presetName domain) =
              Inr (2, 1, Some [(getProp c2 ''name'', CookieStoreError msg)])"
    unfolding B by auto
  from A B C show ?thesis by blast
qed

lemma demo_outcomes:
  "fst (store_run (recording_store refuse_theme) [] (map (appliedConfig ''new.example'') demo_cookies))
     = [None, Some ''refused'', None]"
  by (simp only: store_run_recording fst_conv)
     (simp add: demo_cookies_def demo_cookie1_def demo_cookie2_def demo_cookie3_def
        appliedConfig_def refuse_theme_def)

theorem applyPreset_partial_failure_witness:
  "loadPreset demo_platform work_store [] ''work'' = (Inr (JArr demo_cookies), work_store) \<and>
   JNull \<notin> set demo_cookies \<and>
   fst (store_run (recording_store refuse_theme) []
          (map (appliedConfig ''new.example'') demo_cookies)) = [None, Some ''refused'', None] \<and>
   fst (applyPreset demo_platform (recording_store refuse_theme) work_store [] [] ''work''
          ''new.example'') = Inr (2, 1, Some [(Some (JStr ''theme''), CookieStoreError ''refused'')])"
proof -
  have nn: "JNull \<notin> set demo_cookies"
    by (simp add: demo_cookies_def demo_cookie1_def demo_cookie2_def demo_cookie3_def)
  have dom: "''new.example'' \<noteq> []" by simp
  have name2: "getProp demo_cookie2 ''name'' = Some (JStr ''theme'')"
    by (simp add: demo_cookie2_def)
  from applyPreset_partial_failure [OF loadPreset_work_store dom nn,
      of "recording_store refuse_theme" "[]" "[]", THEN conjunct2, THEN conjunct2, rule_format,
      of demo_cookie1 demo_cookie2 demo_cookie3 "''refused''"] demo_outcomes name2
  have "fst (applyPreset demo_platform (recording_store refuse_theme) work_store [] [] ''work''
          ''new.example'') = Inr (2, 1, Some [(Some (JStr ''theme''), CookieStoreError ''refused'')])"
    by (simp add: demo_cookies_def)
  with loadPreset_work_store nn demo_outcomes show ?thesis by simp
qed

text \<open>
  C8. For a preset whose cookies are not \<^verbatim>\<open>null\<close> and a non-empty target domain, the
  configurations that \<^verbatim>\<open>applyPreset\<close> passes to the Cookie Store are, in order, one
  per cookie. Its \<^verbatim>\<open>domain\<close> is the target domain, and for a cookie whose
  \<^verbatim>\<open>secure\<close> flag is a boolean (or missing) its \<^verbatim>\<open>url\<close> is \<^verbatim>\<open>https://\<close>
  if the flag is \<^verbatim>\<open>true\<close> and \<^verbatim>\<open>http://\<close> otherwise, followed by the target
  domain without one leading dot.
\<close>

theorem applyPreset_target_url:
  assumes load: "loadPreset P s array presetName = (Inr (JArr cookies), s1)"
    and dom: "domain \<noteq> []"
    and nn: "JNull \<notin> set cookies"
  shows "(\<exists>r. applyPreset P (recording_store rejects) s [] array presetName domain =
            (Inr r, s1, map (appliedConfig domain) cookies)) \<and>
         (\<forall>c\<in>set cookies.
            (\<exists>details. applyDetails domain c = Inr details \<and>
                       cookieConfig details = Inr (appliedConfig domain c)) \<and>
            c_domain (appliedConfig domain c) = Some (JStr domain) \<and>
            (getProp c ''secure'' = None \<or> (\<exists>b. getProp c ''secure'' = Some (JBool b)) \<longrightarrow>
               c_url (appliedConfig domain c) =
                 Some (JStr ((if getProp c ''secure'' = Some (JBool True)
                              then ''https://'' else ''http://'')
                             @ (case domain of
                                  ch # rest \<Rightarrow> if ch = CHR ''.'' then rest else domain
                                | [] \<Rightarrow> domain)))))"
proof (intro conjI ballI impI)
  have "applyPreset P (recording_store rejects) s [] array presetName domain =
      (Inr (bulk_response (tally \<lparr>successCount = 0, failCount = 0, errors = []\<rparr> cookies
              (map rejects (map (appliedConfig domain) cookies)))),
       s1, map (appliedConfig domain) cookies)"
    by (simp add: applyPreset_run [OF load dom nn] store_run_recording del: map_map)
  then show "\<exists>r. applyPreset P (recording_store rejects) s [] array presetName domain =
            (Inr r, s1, map (appliedConfig domain) cookies)"
    by blast
next
  fix c assume "c \<in> set cookies"
  show "\<exists>details. applyDetails domain c = Inr details \<and>
                       cookieConfig details = Inr (appliedConfig domain c)"
    by (rule cookieConfig_applyDetails [OF dom])
next
  fix c assume "c \<in> set cookies"
  show "c_domain (appliedConfig domain c) = Some (JStr domain)"
    by (simp add: appliedConfig_def)
next
  fix c assume "c \<in> set cookies"
    and "getProp c ''secure'' = None \<or> (\<exists>b. getProp c ''secure'' = Some (JBool b))"
  then have "truthy (getProp c ''secure'') \<longleftrightarrow> getProp c ''secure'' = Some (JBool True)"
    by auto
  moreover have "(if startsWithDot domain then drop 1 domain else domain) =
      (case domain of ch # rest \<Rightarrow> if ch = CHR ''.'' then rest else domain | [] \<Rightarrow> domain)"
    by (cases domain) (simp_all add: startsWithDot_def)
  ultimately show "c_url (appliedConfig domain c) =
              Some (JStr ((if getProp c ''secure'' = Some (JBool True) then ''https://'' else ''http://'')
                          @ (case domain of ch # rest \<Rightarrow> if ch = CHR ''.'' then rest else domain
                             | [] \<Rightarrow> domain)))"
    by (simp add: appliedConfig_def)
qed

theorem applyPreset_target_url_witness:
  "loadPreset demo_platform work_store [] ''work'' = (Inr (JArr demo_cookies), work_store) \<and>
   map c_url (snd (snd (applyPreset demo_platform (recording_store refuse_theme) work_store [] []
       ''work'' ''.new.example''))) =
     [Some (JStr ''https://new.example''), Some (JStr ''http://new.example''),
      Some (JStr ''http://new.example'')] \<and>
   map c_domain (snd (snd (applyPreset demo_platform (recording_store refuse_theme) work_store [] []
       ''work'' ''.new.example''))) =
     [Some (JStr ''.new.example''), Some (JStr ''.new.example''), Some (JStr ''.new.example'')]"
proof -
  have dom: "''.new.example'' \<noteq> []" by simp
  have nn: "JNull \<notin> set demo_cookies"
    by (simp add: demo_cookies_def demo_cookie1_def demo_cookie2_def demo_cookie3_def)
  have flags: "\<forall>c\<in>set demo_cookies.
        getProp c ''secure'' = None \<or> (\<exists>b. getProp c ''secure'' = Some (JBool b))"
    by (auto simp: demo_cookies_def demo_cookie1_def demo_cookie2_def demo_cookie3_def)
  from applyPreset_target_url [OF loadPreset_work_store dom nn,
      where rejects = refuse_theme and array = "[]"] flags
  have tr: "snd (snd (applyPreset demo_platform (recording_store refuse_theme) work_store [] []
       ''work'' ''.new.example'')) = map (appliedConfig ''.new.example'') demo_cookies"
    and each: "\<forall>c\<in>set demo_cookies.
       c_url (appliedConfig ''.new.example'' c) =
         Some (JStr ((if getProp c ''secure'' = Some (JBool True) then ''https://'' else ''http://'')
                     @ ''new.example'')) \<and>
       c_domain (appliedConfig ''.new.example'' c) = Some (JStr ''.new.example'')"
    by auto
  from each have "map c_url (map (appliedConfig ''.new.example'') demo_cookies) =
     [Some (JStr ''https://new.example''), Some (JStr ''http://new.example''),
      Some (JStr ''http://new.example'')]"
    and "map c_domain (map (appliedConfig ''.new.example'') demo_cookies) =
     [Some (JStr ''.new.example''), Some (JStr ''.new.example''), Some (JStr ''.new.example'')]"
    by (simp_all add: demo_cookies_def demo_cookie1_def demo_cookie2_def demo_cookie3_def)
  with tr loadPreset_work_store show ?thesis by simp
qed

lemma importCookies_run:
  assumes parse: "importParse P s array jsonData encrypted = (Inr (JArr cookies), s1)"
    and ne: "jsonData \<noteq> []"
    and ok: "\<forall>c\<in>set cookies. c \<noteq> JNull \<and> domainString c \<noteq> None"
  shows "importCookies P cookies_set s jar array jsonData encrypted =
     (Inr (bulk_response (tally \<lparr>successCount = 0, failCount = 0, errors = []\<rparr> cookies
        (fst (store_run cookies_set jar (map importedConfig cookies))))),
      s1, snd (store_run cookies_set jar (map importedConfig cookies)))"
  using ne by (simp add: importCookies_def parse importLoop_run [OF ok])

text \<open>
  C7. For an import whose payload parses (or decrypts) to an array of cookies that are not
  \<^verbatim>\<open>null\<close> and have a string \<^verbatim>\<open>domain\<close>, the configurations that
  \<^verbatim>\<open>importCookies\<close> passes to the Cookie Store are, in order, one per cookie, and in
  each of them: a missing \<^verbatim>\<open>path\<close> is \<^verbatim>\<open>/\<close>; a missing \<^verbatim>\<open>secure\<close> or
  \<^verbatim>\<open>httpOnly\<close> is \<^verbatim>\<open>false\<close>; \<^verbatim>\<open>sameSite\<close> is kept when it is
  \<^verbatim>\<open>no_restriction\<close>, \<^verbatim>\<open>lax\<close> or \<^verbatim>\<open>strict\<close> and is unset (no property) for
  every other value; and the expiration date is left out when \<^verbatim>\<open>session\<close> is
  \<^verbatim>\<open>true\<close>.
\<close>

theorem importCookies_normalizes:
  assumes parse: "importParse P s array jsonData encrypted = (Inr (JArr cookies), s1)"
    and ne: "jsonData \<noteq> []"
    and ok: "\<forall>c\<in>set cookies. c \<noteq> JNull \<and> domainString c \<noteq> None"
  shows "(\<exists>r. importCookies P (recording_store rejects) s [] array jsonData encrypted =
            (Inr r, s1, map importedConfig cookies)) \<and>
         (\<forall>c\<in>set cookies.
            (\<exists>details. importDetails c = Inr details \<and>
                       cookieConfig details = Inr (importedConfig c)) \<and>
            (getProp c ''path'' = None \<longrightarrow> c_path (importedConfig c) = Some (JStr ''/'')) \<and>
            (getProp c ''secure'' = None \<longrightarrow> c_secure (importedConfig c) = Some (JBool False)) \<and>
            (getProp c ''httpOnly'' = None \<longrightarrow> c_httpOnly (importedConfig c) = Some (JBool False)) \<and>
            (getProp c ''sameSite'' \<notin>
               {Some (JStr ''no_restriction''), Some (JStr ''lax''), Some (JStr ''strict'')}
               \<longrightarrow> c_sameSite (importedConfig c) = None) \<and>
            (getProp c ''sameSite'' \<in>
               {Some (JStr ''no_restriction''), Some (JStr ''lax''), Some (JStr ''strict'')}
               \<longrightarrow> c_sameSite (importedConfig c) = getProp c ''sameSite'') \<and>
            (getProp c ''session'' = Some (JBool True) \<longrightarrow>
               c_expirationDate (importedConfig c) = None))"
proof (intro conjI ballI)
  have "importCookies P (recording_store rejects) s [] array jsonData encrypted =
      (Inr (bulk_response (tally \<lparr>successCount = 0, failCount = 0, errors = []\<rparr> cookies
              (map rejects (map importedConfig cookies)))),
       s1, map importedConfig cookies)"
    by (simp add: importCookies_run [OF parse ne ok] store_run_recording del: map_map)
  then show "\<exists>r. importCookies P (recording_store rejects) s [] array jsonData encrypted =
            (Inr r, s1, map importedConfig cookies)"
    by blast
next
  fix c assume "c \<in> set cookies"
  with ok obtain d where "domainString c = Some d" by auto
  then show "\<exists>details. importDetails c = Inr details \<and>
                       cookieConfig details = Inr (importedConfig c)"
    by (rule cookieConfig_importDetails)
qed (simp_all add: importedConfig_def)

theorem importCookies_normalizes_witness:
  "importParse demo_platform keyed_store [] (ser (JArr demo_cookies)) False =
     (Inr (JArr demo_cookies), keyed_store) \<and>
   map c_path (snd (snd (importCookies demo_platform (recording_store refuse_theme) keyed_store
       [] [] (ser (JArr demo_cookies)) False))) =
     [Some (JStr ''/''), Some (JStr ''/''), Some (JStr ''/'')] \<and>
   map c_httpOnly (snd (snd (importCookies demo_platform (recording_store refuse_theme) keyed_store
       [] [] (ser (JArr demo_cookies)) False))) =
     [Some (JBool False), Some (JBool False), Some (JBool False)] \<and>
   map c_secure (snd (snd (importCookies demo_platform (recording_store refuse_theme) keyed_store
       [] [] (ser (JArr demo_cookies)) False))) =
     [Some (JBool True), Some (JBool False), Some (JBool False)] \<and>
   map c_sameSite (snd (snd (importCookies demo_platform (recording_store refuse_theme) keyed_store
       [] [] (ser (JArr demo_cookies)) False))) =
     [None, None, Some (JStr ''lax'')] \<and>
   map c_expirationDate (snd (snd (importCookies demo_platform (recording_store refuse_theme)
       keyed_store [] [] (ser (JArr demo_cookies)) False))) =
     [None, None, None]"
proof -
  have parse: "importParse demo_platform keyed_store [] (ser (JArr demo_cookies)) False =
     (Inr (JArr demo_cookies), keyed_store)"
    using demo_parse_ser [of "JArr demo_cookies"]
    by (simp add: importParse_def demo_platform_def)
  have ne: "ser (JArr demo_cookies) \<noteq> []" by simp
  have ok: "\<forall>c\<in>set demo_cookies. c \<noteq> JNull \<and> domainString c \<noteq> None"
    by (simp add: demo_cookies_def demo_cookie1_def demo_cookie2_def demo_cookie3_def
        domainString_def)
  from importCookies_normalizes [OF parse ne ok, where rejects = refuse_theme]
  have tr: "snd (snd (importCookies demo_platform (recording_store refuse_theme) keyed_store
       [] [] (ser (JArr demo_cookies)) False)) = map importedConfig demo_cookies"
    by auto
  show ?thesis
    unfolding tr
    using parse
    by (simp add: demo_cookies_def demo_cookie1_def demo_cookie2_def demo_cookie3_def
        importedConfig_def)
qed

subsection \<open>Concurrent mutations\<close>

lemma savePreset_as_steps:
  assumes "savePreset P s array iv presetName cookies = (Inr r, s')"
  shows "\<exists>e s1. encryptJSON P s array iv cookies = (Inr e, s1) \<and>
           run_schedule [False, False] (s1, AwaitGet presetName e, Returned) = (s', Returned, Returned)"
proof -
  from savePreset_Inr [OF assms] obtain e s1 where
    enc: "encryptJSON P s array iv cookies = (Inr e, s1)" and
    s': "s' = s1\<lparr>presets := js_set (presets s1) presetName (PStr e)\<rparr>" by blast
  then show ?thesis by simp
qed

text \<open>
  C9, evaluated where it fails. Two \<^verbatim>\<open>savePreset\<close> calls, for the names \<^verbatim>\<open>A\<close>
  and \<^verbatim>\<open>B\<close>, start on an empty map. When the first call runs to its end before the
  second reads, both names are present at the end. When both reads are served before
  either write (read A, read B, write A, write B), the second write replaces the whole map
  and the name \<^verbatim>\<open>A\<close> is lost. Nothing in the source excludes the second schedule.
\<close>

theorem concurrent_saves_lose_update:
  "run_schedule [False, False, True, True]
      (keyed_store, AwaitGet ''A'' demo_envelope, AwaitGet ''B'' demo_envelope) =
     (keyed_store\<lparr>presets := [''A'' \<mapsto> PStr demo_envelope, ''B'' \<mapsto> PStr demo_envelope]\<rparr>,
      Returned, Returned) \<and>
   run_schedule [False, True, False, True]
      (keyed_store, AwaitGet ''A'' demo_envelope, AwaitGet ''B'' demo_envelope) =
     (keyed_store\<lparr>presets := [''B'' \<mapsto> PStr demo_envelope]\<rparr>, Returned, Returned) \<and>
   presets (fst (run_schedule [False, True, False, True]
      (keyed_store, AwaitGet ''A'' demo_envelope, AwaitGet ''B'' demo_envelope))) ''A'' = None"
  by (simp add: js_set_def keyed_store_def empty_store_def)

end
